theory Spec2Isabelle
  imports Main
begin

section \<open>JSON values and the Python built-ins the extraction code applies to them\<close>

text \<open>
  The vendor API returns JSON; the code handles it as Python values (\<open>None\<close>, \<open>bool\<close>,
  \<open>int\<close>, \<open>str\<close>, \<open>list\<close>, \<open>dict\<close>). Floating-point numbers are left out, and strings
  hold code points below 256. An object is an association list; \<open>d.get(k)\<close> is
  \<open>map_of d k\<close>.
\<close>

datatype json =
    JNull
  | JBool bool
  | JInt int
  | JStr string
  | JList "json list"
  | JDict "(string \<times> json) list"

text \<open>Every \<^verbatim>\<open>raise\<close> of the code, and every exception a built-in raises, is a value.\<close>

datatype error =
    ValueError string
  | TypeError
  | AttributeError
  | KeyError string
  | HTTPStatusError nat
  | NetworkError string
  | JSONDecodeError
  | DatabaseError string
  | Exception string

text \<open>Truth value of a Python object: \<open>if x:\<close>, \<open>not x\<close>, \<open>x and y\<close>.\<close>

fun py_truthy :: "json \<Rightarrow> bool" where
  "py_truthy JNull = False"
| "py_truthy (JBool b) = b"
| "py_truthy (JInt i) = (i \<noteq> 0)"
| "py_truthy (JStr s) = (s \<noteq> [])"
| "py_truthy (JList xs) = (xs \<noteq> [])"
| "py_truthy (JDict kvs) = (kvs \<noteq> [])"

text \<open>\<open>record.get(field)\<close> used as a condition: a missing key gives \<open>None\<close>, which is false.\<close>

definition get_truthy :: "(string \<times> json) list \<Rightarrow> string \<Rightarrow> bool" where
  "get_truthy d k = (case map_of d k of None \<Rightarrow> False | Some v \<Rightarrow> py_truthy v)"

text \<open>\<open>len(x)\<close>: defined on strings, lists and dicts, a \<open>TypeError\<close> elsewhere.\<close>

fun py_len :: "json \<Rightarrow> error + nat" where
  "py_len (JStr s) = Inr (length s)"
| "py_len (JList xs) = Inr (length xs)"
| "py_len (JDict kvs) = Inr (length kvs)"
| "py_len _ = Inl TypeError"

subsection \<open>\<open>str(x)\<close>\<close>

fun digit_char :: "nat \<Rightarrow> char" where
  "digit_char n = char_of (of_char CHR ''0'' + n mod 10 :: nat)"

function str_nat :: "nat \<Rightarrow> string" where
  "str_nat n = (if n < 10 then [digit_char n] else str_nat (n div 10) @ [digit_char n])"
  by pat_completeness auto
termination
  by (relation "measure id") auto

declare str_nat.simps [simp del]

definition str_int :: "int \<Rightarrow> string" where
  "str_int i = (if i < 0 then CHR ''-'' # str_nat (nat (- i)) else str_nat (nat i))"

definition hex_digit :: "nat \<Rightarrow> char" where
  "hex_digit n = (if n < 10 then char_of (48 + n) else char_of (87 + n))"

text \<open>
  A character of a string is a code point below 256. \<open>repr\<close> of a string: single
  quotes, unless the string holds a single quote and no double quote; backslash and the
  chosen quote are escaped, and so is every code point that is not printable: the
  controls below 32, 127, 128 to 159, the no-break space 160 and the soft hyphen 173.
\<close>

definition printable :: "nat \<Rightarrow> bool" where
  "printable n = (\<not> (n < 32 \<or> n = 127 \<or> (128 \<le> n \<and> n \<le> 160) \<or> n = 173))"

definition repr_char :: "char \<Rightarrow> char \<Rightarrow> string" where
  "repr_char q c =
     (let n = (of_char c :: nat) in
      if c = CHR 0x5C then [CHR 0x5C, CHR 0x5C]
      else if c = q then [CHR 0x5C, q]
      else if c = CHR 0x0A then [CHR 0x5C, CHR ''n'']
      else if c = CHR 0x0D then [CHR 0x5C, CHR ''r'']
      else if c = CHR 0x09 then [CHR 0x5C, CHR ''t'']
      else if \<not> printable n then [CHR 0x5C, CHR ''x'', hex_digit (n div 16), hex_digit (n mod 16)]
      else [c])"

definition repr_str :: "string \<Rightarrow> string" where
  "repr_str s =
     (let q = (if CHR 0x27 \<in> set s \<and> CHR 0x22 \<notin> set s then CHR 0x22 else CHR 0x27)
      in [q] @ concat (map (repr_char q) s) @ [q])"

fun join :: "string \<Rightarrow> string list \<Rightarrow> string" where
  "join sep [] = []"
| "join sep [x] = x"
| "join sep (x # y # ys) = x @ sep @ join sep (y # ys)"

primrec py_repr :: "json \<Rightarrow> string" where
  "py_repr JNull = ''None''"
| "py_repr (JBool b) = (if b then ''True'' else ''False'')"
| "py_repr (JInt i) = str_int i"
| "py_repr (JStr s) = repr_str s"
| "py_repr (JList xs) = ''['' @ join '', '' (map py_repr xs) @ '']''"
| "py_repr (JDict kvs) =
     ''{'' @ join '', '' (map (\<lambda>kv. repr_str (fst kv) @ '': '' @ snd kv) (map (map_prod id py_repr) kvs)) @ ''}''"

definition py_str :: "json \<Rightarrow> string" where
  "py_str v = (case v of JStr s \<Rightarrow> s | _ \<Rightarrow> py_repr v)"

subsection \<open>Comparison\<close>

text \<open>\<open>bool\<close> is a subclass of \<open>int\<close>: \<open>True\<close> counts as 1 and \<open>False\<close> as 0.\<close>

fun py_num :: "json \<Rightarrow> int option" where
  "py_num (JInt i) = Some i"
| "py_num (JBool b) = Some (if b then 1 else 0)"
| "py_num _ = None"

text \<open>\<open>x == 0\<close>\<close>

definition py_is_zero :: "json \<Rightarrow> bool" where
  "py_is_zero v = (py_num v = Some 0)"

text \<open>
  \<open>a == b\<close> and \<open>a >= b\<close>. Numbers compare by value, strings and lists
  lexicographically; \<open>>=\<close> between other types raises \<open>TypeError\<close>. Two objects are
  compared key by key in the order they list their keys.
\<close>

fun str_ge :: "string \<Rightarrow> string \<Rightarrow> bool" where
  "str_ge _ [] = True"
| "str_ge [] (_ # _) = False"
| "str_ge (a # as) (b # bs) =
     (if a = b then str_ge as bs else (of_char a :: nat) > of_char b)"

fun py_eq :: "json \<Rightarrow> json \<Rightarrow> bool" where
  "py_eq JNull JNull = True"
| "py_eq (JStr a) (JStr b) = (a = b)"
| "py_eq (JList xs) (JList ys) = list_all2 py_eq xs ys"
| "py_eq (JDict xs) (JDict ys) =
     list_all2 (\<lambda>x y. fst x = fst y \<and> py_eq (snd x) (snd y)) xs ys"
| "py_eq a b = (case (py_num a, py_num b) of (Some i, Some j) \<Rightarrow> i = j | _ \<Rightarrow> False)"

fun py_ge :: "json \<Rightarrow> json \<Rightarrow> error + bool" and
    py_ge_list :: "json list \<Rightarrow> json list \<Rightarrow> error + bool" where
  "py_ge (JStr a) (JStr b) = Inr (str_ge a b)"
| "py_ge (JList xs) (JList ys) = py_ge_list xs ys"
| "py_ge a b =
     (case (py_num a, py_num b) of (Some i, Some j) \<Rightarrow> Inr (i \<ge> j) | _ \<Rightarrow> Inl TypeError)"
| "py_ge_list _ [] = Inr True"
| "py_ge_list [] (_ # _) = Inr False"
| "py_ge_list (x # xs) (y # ys) = (if py_eq x y then py_ge_list xs ys else py_ge x y)"

text \<open>\<open>needle in haystack\<close> on strings.\<close>

fun starts_with :: "string \<Rightarrow> string \<Rightarrow> bool" where
  "starts_with _ [] = True"
| "starts_with [] (_ # _) = False"
| "starts_with (c # cs) (p # ps) = (c = p \<and> starts_with cs ps)"

fun contains :: "string \<Rightarrow> string \<Rightarrow> bool" where
  "contains [] needle = (needle = [])"
| "contains (c # cs) needle = (starts_with (c # cs) needle \<or> contains cs needle)"

section \<open>The staging store (\<open>models/base.py\<close>, the SQLAlchemy session)\<close>

text \<open>
  A row of a raw table: the columns the extractor sets. \<open>tablename\<close> is the model
  class (\<open>RawContact\<close> is \<open>raw_contacts\<close>, \<open>RawPolicy\<close> is \<open>raw_policies\<close>).
\<close>

record raw_record =
  tablename :: string
  source_id :: string
  raw_data :: json
  etl_batch_id :: string

text \<open>
  The session: the rows committed, the rows of the open transaction, and the calls made
  so far. Whether a call raises is decided by the database, not by the code: \<open>db k\<close> is
  the fault of the \<open>k\<close>-th call on the session (counted from 0), if it has one. A fault
  carries the error message and, for a bulk insert, how many rows had been sent when
  it failed.
\<close>

datatype db_call = Execute string | BulkSave "raw_record list" | Commit | Rollback

datatype db_fault = Fault string nat

type_synonym database = "nat \<Rightarrow> db_fault option"

record session =
  committed :: "raw_record list"
  pending :: "raw_record list"
  calls :: "db_call list"

definition fault_error :: "db_fault \<Rightarrow> error" where
  "fault_error f = (case f of Fault m _ \<Rightarrow> DatabaseError m)"

text \<open>\<open>session.execute(text("SELECT source_id FROM <table>")).fetchall()\<close>\<close>

definition select_source_ids :: "database \<Rightarrow> string \<Rightarrow> session \<Rightarrow> (error + string list) \<times> session" where
  "select_source_ids db t s =
     (let s' = s\<lparr>calls := calls s @ [Execute (''SELECT source_id FROM '' @ t)]\<rparr> in
      (case db (length (calls s)) of
         Some f \<Rightarrow> (Inl (fault_error f), s')
       | None \<Rightarrow> (Inr (map source_id (filter (\<lambda>r. tablename r = t) (committed s @ pending s))), s')))"

definition bulk_save_objects :: "database \<Rightarrow> raw_record list \<Rightarrow> session \<Rightarrow> (error + unit) \<times> session" where
  "bulk_save_objects db objs s =
     (let s' = s\<lparr>calls := calls s @ [BulkSave objs]\<rparr> in
      (case db (length (calls s)) of
         Some (Fault m k) \<Rightarrow> (Inl (DatabaseError m), s'\<lparr>pending := pending s @ take k objs\<rparr>)
       | None \<Rightarrow> (Inr (), s'\<lparr>pending := pending s @ objs\<rparr>)))"

definition commit :: "database \<Rightarrow> session \<Rightarrow> (error + unit) \<times> session" where
  "commit db s =
     (let s' = s\<lparr>calls := calls s @ [Commit]\<rparr> in
      (case db (length (calls s)) of
         Some f \<Rightarrow> (Inl (fault_error f), s')
       | None \<Rightarrow> (Inr (), s'\<lparr>committed := committed s @ pending s, pending := []\<rparr>)))"

definition rollback :: "database \<Rightarrow> session \<Rightarrow> (error + unit) \<times> session" where
  "rollback db s =
     (let s' = s\<lparr>calls := calls s @ [Rollback]\<rparr> in
      (case db (length (calls s)) of
         Some f \<Rightarrow> (Inl (fault_error f), s')
       | None \<Rightarrow> (Inr (), s'\<lparr>pending := []\<rparr>)))"

text \<open>\<open>str(e)\<close> of an exception is its message.\<close>

fun str_error :: "error \<Rightarrow> string" where
  "str_error (ValueError m) = m"
| "str_error (KeyError m) = repr_str m"
| "str_error (NetworkError m) = m"
| "str_error (DatabaseError m) = m"
| "str_error (Exception m) = m"
| "str_error (HTTPStatusError n) = ''HTTP status '' @ str_nat n"
| "str_error TypeError = ''TypeError''"
| "str_error AttributeError = ''AttributeError''"
| "str_error JSONDecodeError = ''JSONDecodeError''"

text \<open>\<open>type(e).__name__\<close>\<close>

fun error_name :: "error \<Rightarrow> string" where
  "error_name (ValueError _) = ''ValueError''"
| "error_name (KeyError _) = ''KeyError''"
| "error_name (NetworkError _) = ''NetworkError''"
| "error_name (DatabaseError _) = ''DatabaseError''"
| "error_name (Exception _) = ''Exception''"
| "error_name (HTTPStatusError _) = ''HTTPStatusError''"
| "error_name TypeError = ''TypeError''"
| "error_name AttributeError = ''AttributeError''"
| "error_name JSONDecodeError = ''JSONDecodeError''"

section \<open>The API client (\<open>extract/api_client.py\<close>)\<close>

text \<open>
  A query parameter is a number, a string, or \<open>datetime.now().isoformat()\<close> taken at a
  clock reading.
\<close>

datatype param = PInt int | PStr string | PNow int

record request =
  url :: string
  authorization :: string
  params :: "(string \<times> param) list"

text \<open>
  What the HTTP client gets back: a transport failure, or a response with its status
  code and its body (\<open>None\<close> when the body is not JSON, so that \<open>response.json()\<close> raises).
\<close>

datatype reply = ConnectionFailed string | Response nat "json option"

text \<open>
  The vendor's side: the reply to the \<open>k\<close>-th GET (counted from 0) as a function of
  the request, the reply to the \<open>k\<close>-th token POST, and the seconds each takes.
\<close>

record upstream =
  http_get :: "nat \<Rightarrow> request \<Rightarrow> int \<times> reply"
  token_post :: "nat \<Rightarrow> int \<times> reply"

text \<open>
  The client object: its token fields, and with them the clock (seconds), the GETs sent,
  the number of token POSTs and the waits of the retry decorator.
\<close>

record client =
  base_url :: string
  access_token :: json
  token_expires_at :: "int option"
  clock :: int
  sent :: "request list"
  token_requests :: nat
  slept :: "int list"

text \<open>\<open>response.raise_for_status()\<close> of httpx raises unless the status is 2xx.\<close>

definition is_success :: "nat \<Rightarrow> bool" where
  "is_success st = (200 \<le> st \<and> st \<le> 299)"

definition get_new_token :: "upstream \<Rightarrow> client \<Rightarrow> (error + json) \<times> client" where
  "get_new_token up c =
     (case token_post up (token_requests c) of (dt, rep) \<Rightarrow>
        (let c' = c\<lparr>clock := clock c + dt, token_requests := token_requests c + 1\<rparr> in
         (case rep of
            ConnectionFailed m \<Rightarrow> (Inl (NetworkError m), c')
          | Response st body \<Rightarrow>
              if \<not> is_success st then (Inl (HTTPStatusError st), c')
              else (case body of None \<Rightarrow> (Inl JSONDecodeError, c') | Some d \<Rightarrow> (Inr d, c')))))"

text \<open>
  \<open>_refresh_token\<close>: a new token is fetched only when none is held or the held one is
  within five minutes of its expiry. \<open>token_data['access_token']\<close> raises on a body that
  is no object or lacks the key; \<open>timedelta(seconds=...)\<close> raises on a non-number.
\<close>

definition needs_refresh :: "client \<Rightarrow> bool" where
  "needs_refresh c =
     (\<not> py_truthy (access_token c) \<or>
      (case token_expires_at c of None \<Rightarrow> True | Some t \<Rightarrow> clock c \<ge> t - 300))"

definition refresh_token :: "upstream \<Rightarrow> client \<Rightarrow> (error + unit) \<times> client" where
  "refresh_token up c =
     (if needs_refresh c then
        (case get_new_token up c of
           (Inl e, c1) \<Rightarrow> (Inl e, c1)
         | (Inr token_data, c1) \<Rightarrow>
             (case token_data of
                JDict d \<Rightarrow>
                  (case map_of d ''access_token'' of
                     None \<Rightarrow> (Inl (KeyError ''access_token''), c1)
                   | Some tok \<Rightarrow>
                       (let c2 = c1\<lparr>access_token := tok\<rparr> in
                        (case py_num (case map_of d ''expires_in'' of None \<Rightarrow> JInt 3600 | Some v \<Rightarrow> v) of
                           None \<Rightarrow> (Inl TypeError, c2)
                         | Some expires_in \<Rightarrow>
                             (Inr (), c2\<lparr>token_expires_at := Some (clock c2 + expires_in)\<rparr>))))
              | _ \<Rightarrow> (Inl TypeError, c1)))
      else (Inr (), c))"

text \<open>\<open>_get_headers\<close>: only the Authorization header differs between requests.\<close>

definition get_headers :: "upstream \<Rightarrow> client \<Rightarrow> (error + string) \<times> client" where
  "get_headers up c =
     (case refresh_token up c of
        (Inl e, c') \<Rightarrow> (Inl e, c')
      | (Inr _, c') \<Rightarrow> (Inr (''Bearer '' @ py_str (access_token c')), c'))"

text \<open>\<open>self.client.get(url, headers=self._get_headers(), params=params)\<close>\<close>

definition client_get :: "upstream \<Rightarrow> string \<Rightarrow> (string \<times> param) list \<Rightarrow> client \<Rightarrow> (error + nat \<times> json option) \<times> client" where
  "client_get up u ps c =
     (case get_headers up c of
        (Inl e, c1) \<Rightarrow> (Inl e, c1)
      | (Inr auth, c1) \<Rightarrow>
          (let req = \<lparr>url = u, authorization = auth, params = ps\<rparr> in
           (case http_get up (length (sent c1)) req of (dt, rep) \<Rightarrow>
              (let c2 = c1\<lparr>clock := clock c1 + dt, sent := sent c1 @ [req]\<rparr> in
               (case rep of
                  ConnectionFailed m \<Rightarrow> (Inl (NetworkError m), c2)
                | Response st body \<Rightarrow> (Inr (st, body), c2))))))"

text \<open>\<open>response.raise_for_status(); data = response.json(); return data\<close>\<close>

definition read_response :: "nat \<times> json option \<Rightarrow> error + json" where
  "read_response r =
     (case r of (st, body) \<Rightarrow>
        if \<not> is_success st then Inl (HTTPStatusError st)
        else (case body of None \<Rightarrow> Inl JSONDecodeError | Some d \<Rightarrow> Inr d))"

text \<open>
  The body of \<open>get_resource\<close>, one attempt. Both \<open>except\<close> branches log and re-raise
  the exception they caught, whatever the status.
\<close>

definition get_resource_attempt :: "upstream \<Rightarrow> string \<Rightarrow> (string \<times> param) list \<Rightarrow> client \<Rightarrow> (error + json) \<times> client" where
  "get_resource_attempt up resource ps c =
     (let u = base_url c @ ''/'' @ resource in
      (case client_get up u ps c of
         (Inl e, c1) \<Rightarrow> (Inl e, c1)
       | (Inr (st, body), c1) \<Rightarrow>
           if st = 401 then
             (case refresh_token up c1 of
                (Inl e, c2) \<Rightarrow> (Inl e, c2)
              | (Inr _, c2) \<Rightarrow>
                  (case client_get up u ps c2 of
                     (Inl e, c3) \<Rightarrow> (Inl e, c3)
                   | (Inr r, c3) \<Rightarrow> (read_response r, c3)))
           else (read_response (st, body), c1)))"

text \<open>
  The decorator \<open>@retry(stop=stop_after_attempt(3), wait=wait_exponential(multiplier=1,
  min=4, max=10), reraise=True)\<close> of tenacity: with no \<open>retry=\<close> argument it retries on
  every exception. After failed attempt \<open>n\<close> it sleeps
  \<open>max(4, min(1 * 2 ** (n - 1), 10))\<close> seconds; the third failure is re-raised.
\<close>

definition wait_exponential :: "nat \<Rightarrow> int" where
  "wait_exponential n = max (max 0 4) (min (1 * 2 ^ (n - 1)) 10)"

definition sleep :: "int \<Rightarrow> client \<Rightarrow> client" where
  "sleep d c = c\<lparr>clock := clock c + d, slept := slept c @ [d]\<rparr>"

function retrying :: "nat \<Rightarrow> upstream \<Rightarrow> string \<Rightarrow> (string \<times> param) list \<Rightarrow> client \<Rightarrow> (error + json) \<times> client" where
  "retrying n up resource ps c =
     (case get_resource_attempt up resource ps c of
        (Inr d, c') \<Rightarrow> (Inr d, c')
      | (Inl e, c') \<Rightarrow>
          if n \<ge> 3 then (Inl e, c')
          else retrying (n + 1) up resource ps (sleep (wait_exponential n) c'))"
  by pat_completeness auto
termination
  by (relation "measure (\<lambda>(n, _). 3 - n)") auto

declare retrying.simps [simp del]

definition get_resource :: "upstream \<Rightarrow> string \<Rightarrow> (string \<times> param) list \<Rightarrow> client \<Rightarrow> (error + json) \<times> client" where
  "get_resource = retrying 1"

subsection \<open>\<open>get_paginated_resource\<close>\<close>

record page_args =
  resource_path :: string
  last_modified_start :: "string option"
  last_modified_end :: "string option"
  page_size :: int

text \<open>\<open>if last_modified_start:\<close> on an optional string: \<open>None\<close> and \<open>""\<close> are false.\<close>

definition given :: "string option \<Rightarrow> bool" where
  "given s = (case s of None \<Rightarrow> False | Some v \<Rightarrow> v \<noteq> [])"

definition build_params :: "page_args \<Rightarrow> nat \<Rightarrow> int \<Rightarrow> (string \<times> param) list" where
  "build_params a pg now =
     [(''pageNumber'', PInt (int pg)), (''pageSize'', PInt (page_size a))] @
     (if contains (resource_path a) ''LastModifiedCreated'' then
        (if given (last_modified_start a) then
           [(''startDate'', PStr (the (last_modified_start a))),
            (''endDate'', if given (last_modified_end a) then PStr (the (last_modified_end a)) else PNow now)]
         else [])
      else
        (if given (last_modified_start a) then [(''lastModifiedStart'', PStr (the (last_modified_start a)))] else []) @
        (if given (last_modified_end a) then [(''lastModifiedEnd'', PStr (the (last_modified_end a)))] else []))"

text \<open>\<open>data.get(k) and len(data.get(k, [])) > 0\<close>\<close>

definition has_items :: "(string \<times> json) list \<Rightarrow> string \<Rightarrow> error + bool" where
  "has_items d k =
     (case map_of d k of
        None \<Rightarrow> Inr False
      | Some v \<Rightarrow>
          if py_truthy v then (case py_len v of Inl e \<Rightarrow> Inl e | Inr n \<Rightarrow> Inr (n > 0))
          else Inr False)"

definition has_data :: "json \<Rightarrow> error + bool" where
  "has_data data =
     (case data of
        JDict d \<Rightarrow>
          (case has_items d ''Data'' of
             Inl e \<Rightarrow> Inl e
           | Inr True \<Rightarrow> Inr True
           | Inr False \<Rightarrow> has_items d ''items'')
      | JList xs \<Rightarrow> Inr (length xs > 0)
      | _ \<Rightarrow> Inr False)"

text \<open>
  An async generator is a suspended frame and a step: \<open>pager\<close> holds the locals
  \<open>page\<close> and \<open>total_items\<close> (\<open>JNull\<close> for \<open>None\<close>) and the page handed out at the
  \<open>yield\<close> the frame is suspended at (\<open>None\<close> before the first step).
\<close>

record pager =
  page :: nat
  total_items :: json
  yielded :: "json option"

definition new_pager :: pager where
  "new_pager = \<lparr>page = 1, total_items = JNull, yielded = None\<rparr>"

text \<open>From the top of the \<open>while True\<close> body to the \<open>yield\<close> or the first \<open>break\<close>.\<close>

definition fetch_page :: "upstream \<Rightarrow> page_args \<Rightarrow> pager \<Rightarrow> client \<Rightarrow> (error + (json \<times> pager) option) \<times> client" where
  "fetch_page up a g c =
     (case get_resource up (resource_path a) (build_params a (page g) (clock c)) c of
        (Inl e, c') \<Rightarrow> (Inl e, c')
      | (Inr data, c') \<Rightarrow>
          (case has_data data of
             Inl e \<Rightarrow> (Inl e, c')
           | Inr nonempty \<Rightarrow>
               if \<not> nonempty \<or>
                  (case data of
                     JDict d \<Rightarrow> total_items g \<noteq> JNull \<and>
                       py_is_zero (case map_of d ''TotalItems'' of None \<Rightarrow> JInt 0 | Some v \<Rightarrow> v)
                   | _ \<Rightarrow> False)
               then (Inr None, c')
               else
                 (let t = (case data of
                             JDict d \<Rightarrow>
                               (case map_of d ''TotalItems'' of
                                  Some v \<Rightarrow> if total_items g = JNull then v else total_items g
                                | None \<Rightarrow> total_items g)
                           | _ \<Rightarrow> total_items g)
                  in (Inr (Some (data, g\<lparr>total_items := t, yielded := Some data\<rparr>)), c'))))"

text \<open>The last-page check after the \<open>yield\<close>: \<open>Inr True\<close> is the second \<open>break\<close>.\<close>

definition last_page :: "json \<Rightarrow> error + bool" where
  "last_page data =
     (case data of
        JDict d \<Rightarrow>
          if get_truthy d ''PageNumber'' \<and> get_truthy d ''PagesTotal''
          then py_ge (the (map_of d ''PageNumber'')) (the (map_of d ''PagesTotal''))
          else Inr False
      | _ \<Rightarrow> Inr False)"

text \<open>
  One step of the generator (\<open>__anext__\<close>): \<open>Inr None\<close> is the end of the iteration,
  \<open>Inr (Some (data, g'))\<close> a page and the frame to resume from, \<open>Inl e\<close> an exception.
\<close>

definition next_page :: "upstream \<Rightarrow> page_args \<Rightarrow> pager \<Rightarrow> client \<Rightarrow> (error + (json \<times> pager) option) \<times> client" where
  "next_page up a g c =
     (case yielded g of
        None \<Rightarrow> fetch_page up a g c
      | Some data \<Rightarrow>
          (case last_page data of
             Inl e \<Rightarrow> (Inl e, c)
           | Inr True \<Rightarrow> (Inr None, c)
           | Inr False \<Rightarrow> fetch_page up a (g\<lparr>page := page g + 1\<rparr>) c))"

text \<open>
  The whole iteration: the pages yielded, the exception that ended it if one did, and
  the client afterwards. The loop has no bound of its own, so the result is an option:
  \<open>None\<close> when the iteration never ends.
\<close>

partial_function (option) paginate :: "upstream \<Rightarrow> page_args \<Rightarrow> pager \<Rightarrow> client \<Rightarrow> (json list \<times> error option \<times> client) option" where
  "paginate up a g c =
     (case next_page up a g c of
        (Inl e, c') \<Rightarrow> Some ([], Some e, c')
      | (Inr None, c') \<Rightarrow> Some ([], None, c')
      | (Inr (Some (data, g')), c') \<Rightarrow>
          Option.bind (paginate up a g' c') (\<lambda>(ds, r). Some (data # ds, r)))"

declare paginate.simps [code]

definition get_paginated_resource :: "upstream \<Rightarrow> page_args \<Rightarrow> client \<Rightarrow> (json list \<times> error option \<times> client) option" where
  "get_paginated_resource up a c = paginate up a new_pager c"

section \<open>The extraction coordinator (\<open>extract/extractor.py\<close>)\<close>

text \<open>
  Log lines of level INFO and above are kept, as level and text; DEBUG lines are
  left out.
\<close>

datatype level = INFO | WARNING | ERROR

type_synonym log = "(level \<times> string) list"

subsection \<open>\<open>_flush_buffer\<close>\<close>

definition record_lines :: "raw_record list \<Rightarrow> log" where
  "record_lines buf =
     map (\<lambda>(i, r). (ERROR, ''Record '' @ str_nat i @ '': source_id='' @ source_id r
                          @ '', etl_batch_id='' @ etl_batch_id r))
         (zip [0 ..< length buf] buf)"

text \<open>The \<open>except\<close> branch: roll back, log the error and every record, raise anew.\<close>

definition flush_failed :: "database \<Rightarrow> raw_record list \<Rightarrow> error \<Rightarrow> session \<Rightarrow> log \<Rightarrow> error \<times> session \<times> log" where
  "flush_failed db buf e s lg =
     (case rollback db s of
        (Inl e', s') \<Rightarrow> (e', s', lg)
      | (Inr _, s') \<Rightarrow>
          (Exception (''Failed to flush buffer to database: '' @ str_error e), s',
           lg @ [(ERROR, ''Database error while flushing buffer: '' @ str_error e),
                 (ERROR, ''Error type: '' @ error_name e)]
              @ record_lines buf))"

definition flush_buffer :: "database \<Rightarrow> raw_record list \<Rightarrow> session \<Rightarrow> log \<Rightarrow> (error + unit) \<times> session \<times> log" where
  "flush_buffer db buf s lg =
     (let lg1 = lg @ [(INFO, ''Attempting to flush '' @ str_nat (length buf) @ '' records to database'')] in
      (case bulk_save_objects db buf s of
         (Inl e, s1) \<Rightarrow> (case flush_failed db buf e s1 lg1 of (e', s', lg') \<Rightarrow> (Inl e', s', lg'))
       | (Inr _, s1) \<Rightarrow>
           (case commit db s1 of
              (Inl e, s2) \<Rightarrow> (case flush_failed db buf e s2 lg1 of (e', s', lg') \<Rightarrow> (Inl e', s', lg'))
            | (Inr _, s2) \<Rightarrow>
                (Inr (), s2,
                 lg1 @ [(INFO, ''Successfully flushed '' @ str_nat (length buf) @ '' records to database'')]))))"

subsection \<open>\<open>_validate_record\<close>\<close>

definition id_field_map :: "string \<Rightarrow> string list" where
  "id_field_map resource =
     (if resource = ''contacts'' then [''EntityID'', ''ContactId'']
      else if resource = ''policies'' then [''EntityID'', ''PolicyId'']
      else [''EntityID''])"

definition validate_record :: "(string \<times> json) list \<Rightarrow> string \<Rightarrow> string list" where
  "validate_record rec resource =
     (if \<not> list_ex (get_truthy rec) (id_field_map resource)
      then [''Missing required ID field. Expected one of: '' @ join '', '' (id_field_map resource)]
      else []) @
     (if resource = ''policies'' then
        (if \<not> get_truthy rec ''PolicyNumber'' then [''Policy must have a policy number''] else []) @
        (if \<not> get_truthy rec ''Status'' then [''Policy must have a status''] else [])
      else [])"

text \<open>The warnings \<open>_validate_record\<close> logs when it found errors.\<close>

definition validation_log :: "(string \<times> json) list \<Rightarrow> string \<Rightarrow> string list \<Rightarrow> log" where
  "validation_log rec resource errors =
     (if errors = [] then []
      else
        (let identifier = (case find (get_truthy rec) (id_field_map resource) of
                             None \<Rightarrow> JNull
                           | Some f \<Rightarrow> the (map_of rec f))
         in (WARNING, ''Validation errors for '' @ resource @ '' record '' @ py_str identifier @ '':'')
            # map (\<lambda>e. (WARNING, ''  - '' @ e)) errors))"

subsection \<open>\<open>extract_resource\<close>\<close>

definition RESOURCE_MODEL_MAP :: "(string \<times> string) list" where
  "RESOURCE_MODEL_MAP = [(''contacts'', ''raw_contacts''), (''policies'', ''raw_policies'')]"

definition RESOURCE_ENDPOINT_MAP :: "(string \<times> string) list" where
  "RESOURCE_ENDPOINT_MAP =
     [(''contacts'', ''Contacts/LastModifiedCreated''), (''policies'', ''Policies/LastModifiedCreated'')]"

text \<open>The extractor object: the fields set by \<open>__init__\<close> besides client and session.\<close>

record extractor =
  batch_size :: int
  batch_id :: string

record stats =
  stats_total_items :: nat
  stats_skipped_validation :: nat
  stats_already_in_database :: nat
  stats_added_to_buffer :: nat

text \<open>The locals of \<open>extract_resource\<close> that change in the loop, the session and the log.\<close>

record xstate =
  records_processed :: nat
  buffer :: "raw_record list"
  validation_errors :: nat
  processed_ids :: "string set"
  test_records :: "json list"
  stats :: stats
  sess :: session
  logs :: log

text \<open>What stays fixed during the loop.\<close>

record ctx =
  resource :: string
  test_mode :: bool
  limit :: "int option"
  existing_source_ids :: "string set"
  model_class :: string
  self :: extractor

text \<open>
  How a piece of the loop body ends: it falls through to the next iteration, leaves
  the page loop (\<open>break\<close>), returns the test records, or raises.
\<close>

datatype outcome = Continue xstate | Break xstate | Return xstate | Raise error xstate

text \<open>
  The identifier of an item (lines 177 to 182): \<open>PolicyId\<close> stands in for a policy without
  \<open>EntityID\<close>; otherwise \<open>str(item.get("EntityID", ""))\<close>.
\<close>

definition entity_id :: "string \<Rightarrow> (string \<times> json) list \<Rightarrow> string" where
  "entity_id res item =
     (if res = ''policies'' \<and> \<not> get_truthy item ''EntityID'' \<and> get_truthy item ''PolicyId''
      then py_str (the (map_of item ''PolicyId''))
      else py_str (case map_of item ''EntityID'' of None \<Rightarrow> JStr [] | Some v \<Rightarrow> v))"

text \<open>\<open>limit and len(test_records) >= limit\<close>\<close>

definition limit_reached :: "ctx \<Rightarrow> xstate \<Rightarrow> bool" where
  "limit_reached cx x =
     (case limit cx of None \<Rightarrow> False | Some l \<Rightarrow> l \<noteq> 0 \<and> int (length (test_records x)) \<ge> l)"

definition bump_skipped :: "xstate \<Rightarrow> xstate" where
  "bump_skipped x =
     x\<lparr>stats := (stats x)\<lparr>stats_skipped_validation := stats_skipped_validation (stats x) + 1\<rparr>\<rparr>"

text \<open>The body of \<open>for item in items\<close>. \<open>item.get\<close> exists on a dict only.\<close>

definition process_item :: "database \<Rightarrow> ctx \<Rightarrow> xstate \<Rightarrow> json \<Rightarrow> outcome" where
  "process_item db cx x item =
     (case item of
        JDict d \<Rightarrow>
          (let eid = entity_id (resource cx) d in
           if eid = [] then
             Continue (bump_skipped
               (x\<lparr>logs := logs x @ [(WARNING, ''Skipping record with no EntityID: '' @ py_repr item)]\<rparr>))
           else if eid \<in> processed_ids x then Continue x
           else
             (let x1 = x\<lparr>processed_ids := insert eid (processed_ids x)\<rparr> in
              if eid \<in> existing_source_ids cx then
                Continue (x1\<lparr>stats := (stats x1)\<lparr>stats_already_in_database :=
                                         stats_already_in_database (stats x1) + 1\<rparr>\<rparr>)
              else
                (let errors = validate_record d (resource cx);
                     x2 = x1\<lparr>logs := logs x1 @ validation_log d (resource cx) errors\<rparr> in
                 if errors \<noteq> [] then
                   Continue (bump_skipped (x2\<lparr>validation_errors := validation_errors x2 + 1\<rparr>))
                 else if test_mode cx then
                   (let x3 = x2\<lparr>test_records := test_records x2 @ [item]\<rparr> in
                    if limit_reached cx x3 then Return x3 else Continue x3)
                 else
                   (let raw = \<lparr>tablename = model_class cx, source_id = eid, raw_data = item,
                               etl_batch_id = batch_id (self cx)\<rparr>;
                        x3 = x2\<lparr>buffer := buffer x2 @ [raw],
                                stats := (stats x2)\<lparr>stats_added_to_buffer :=
                                           stats_added_to_buffer (stats x2) + 1\<rparr>,
                                records_processed := records_processed x2 + 1\<rparr> in
                    if int (length (buffer x3)) \<ge> batch_size (self cx) then
                      (case flush_buffer db (buffer x3) (sess x3) (logs x3) of
                         (Inl e, s', lg') \<Rightarrow> Raise e (x3\<lparr>sess := s', logs := lg'\<rparr>)
                       | (Inr _, s', lg') \<Rightarrow> Continue (x3\<lparr>sess := s', logs := lg', buffer := []\<rparr>))
                    else Continue x3))))
      | _ \<Rightarrow> Raise AttributeError x)"

fun process_items :: "database \<Rightarrow> ctx \<Rightarrow> xstate \<Rightarrow> json list \<Rightarrow> outcome" where
  "process_items db cx x [] = Continue x"
| "process_items db cx x (item # rest) =
     (case process_item db cx x item of
        Continue x' \<Rightarrow> process_items db cx x' rest
      | other \<Rightarrow> other)"

text \<open>
  \<open>items\<close> of a page: \<open>page.get("Data", [])\<close> of a dict, the page itself when it is a
  list. \<open>len(items)\<close> raises on a value without length; iterating a string gives its
  characters, iterating a dict its keys.
\<close>

definition page_items :: "json \<Rightarrow> json" where
  "page_items pg =
     (case pg of
        JDict d \<Rightarrow> (case map_of d ''Data'' of None \<Rightarrow> JList [] | Some v \<Rightarrow> v)
      | JList xs \<Rightarrow> JList xs
      | _ \<Rightarrow> JList [])"

fun py_iter :: "json \<Rightarrow> json list" where
  "py_iter (JList xs) = xs"
| "py_iter (JStr s) = map (\<lambda>ch. JStr [ch]) s"
| "py_iter (JDict kvs) = map (\<lambda>kv. JStr (fst kv)) kvs"
| "py_iter _ = []"

text \<open>The body of \<open>async for page in ...\<close>.\<close>

definition process_page :: "database \<Rightarrow> ctx \<Rightarrow> xstate \<Rightarrow> json \<Rightarrow> outcome" where
  "process_page db cx x pg =
     (case py_len (page_items pg) of
        Inl e \<Rightarrow> Raise e x
      | Inr n \<Rightarrow>
          (let x1 = x\<lparr>stats := (stats x)\<lparr>stats_total_items := stats_total_items (stats x) + n\<rparr>,
                      logs := logs x @ [(INFO, ''Processing '' @ str_nat n @ '' items from page ?/?'')]\<rparr> in
           (case process_items db cx x1 (py_iter (page_items pg)) of
              Continue x2 \<Rightarrow> if test_mode cx \<and> limit_reached cx x2 then Break x2 else Continue x2
            | other \<Rightarrow> other)))"

datatype result = Count nat | Records "json list"

definition render_stats :: "stats \<Rightarrow> string" where
  "render_stats st =
     ''{'' @ repr_str ''total_items'' @ '': '' @ str_nat (stats_total_items st) @ '', ''
          @ repr_str ''skipped_validation'' @ '': '' @ str_nat (stats_skipped_validation st) @ '', ''
          @ repr_str ''already_in_database'' @ '': '' @ str_nat (stats_already_in_database st) @ '', ''
          @ repr_str ''added_to_buffer'' @ '': '' @ str_nat (stats_added_to_buffer st) @ ''}''"

text \<open>After the page loop: the last flush, the summary lines, the return value.\<close>

definition finish :: "database \<Rightarrow> ctx \<Rightarrow> xstate \<Rightarrow> (error + result) \<times> xstate" where
  "finish db cx x =
     (case (if \<not> test_mode cx \<and> buffer x \<noteq> []
            then (case flush_buffer db (buffer x) (sess x) (logs x) of
                    (r, s', lg') \<Rightarrow> (r, x\<lparr>sess := s', logs := lg'\<rparr>))
            else (Inr (), x)) of
        (Inl e, x1) \<Rightarrow> (Inl e, x1)
      | (Inr _, x1) \<Rightarrow>
          (let lg2 = logs x1 @
                 (if validation_errors x1 > 0
                  then [(WARNING, ''Completed with '' @ str_nat (validation_errors x1)
                           @ '' validation errors out of ''
                           @ str_nat (records_processed x1 + validation_errors x1) @ '' total records'')]
                  else []) @
                 [(INFO, ''Extraction stats for '' @ resource cx @ '': '' @ render_stats (stats x1))];
               x2 = x1\<lparr>logs := lg2\<rparr> in
           (Inr (if test_mode cx then Records (test_records x2) else Count (records_processed x2)), x2)))"

text \<open>
  The page loop drives the generator: each round takes the next page, and a \<open>break\<close>,
  a \<open>return\<close> or an exception ends it before the generator is exhausted. Like the
  generator it has no bound of its own.
\<close>

partial_function (option) page_loop :: "upstream \<Rightarrow> page_args \<Rightarrow> database \<Rightarrow> ctx \<Rightarrow> pager \<Rightarrow> client \<Rightarrow> xstate \<Rightarrow> ((error + result) \<times> client \<times> xstate) option" where
  "page_loop up a db cx g c x =
     (case next_page up a g c of
        (Inl e, c') \<Rightarrow> Some (Inl e, c', x)
      | (Inr None, c') \<Rightarrow> (case finish db cx x of (r, x') \<Rightarrow> Some (r, c', x'))
      | (Inr (Some (pg, g')), c') \<Rightarrow>
          (case process_page db cx x pg of
             Continue x' \<Rightarrow> page_loop up a db cx g' c' x'
           | Break x' \<Rightarrow> (case finish db cx x' of (r, x'') \<Rightarrow> Some (r, c', x''))
           | Return x' \<Rightarrow> Some (Inr (Records (test_records x')), c', x')
           | Raise e x' \<Rightarrow> Some (Inl e, c', x')))"

declare page_loop.simps [code]

text \<open>Step 1: the identifiers already stored; a failing query leaves the set empty.\<close>

definition load_existing :: "database \<Rightarrow> bool \<Rightarrow> string \<Rightarrow> session \<Rightarrow> log \<Rightarrow> string set \<times> session \<times> log" where
  "load_existing db test t s lg =
     (if \<not> test then
        (case select_source_ids db t s of
           (Inr ids, s') \<Rightarrow>
             (set ids, s',
              lg @ [(INFO, ''Found '' @ str_nat (length (remdups ids)) @ '' existing records in '' @ t)])
         | (Inl e, s') \<Rightarrow>
             ({}, s', lg @ [(ERROR, ''Error checking existing records: '' @ str_error e)]))
      else ({}, s, lg))"

definition new_xstate :: "session \<Rightarrow> log \<Rightarrow> xstate" where
  "new_xstate s lg =
     \<lparr>records_processed = 0, buffer = [], validation_errors = 0, processed_ids = {},
      test_records = [],
      stats = \<lparr>stats_total_items = 0, stats_skipped_validation = 0,
               stats_already_in_database = 0, stats_added_to_buffer = 0\<rparr>,
      sess = s, logs = lg\<rparr>"

text \<open>
  \<open>extract_resource(resource, last_modified_start, last_modified_end, test_mode, limit)\<close>
  on the extractor \<open>ex\<close>, with the client \<open>c\<close>, the session \<open>s\<close> and the log \<open>lg\<close> as they
  are when it is called. The endpoint templates of the two registered resources have
  no placeholder, so \<open>format(**kwargs)\<close> leaves them as they are. The page size is the
  default of \<open>get_paginated_resource\<close>.
\<close>

definition extract_resource :: "upstream \<Rightarrow> database \<Rightarrow> extractor \<Rightarrow> string \<Rightarrow> string option \<Rightarrow> string option \<Rightarrow> bool \<Rightarrow> int option \<Rightarrow> client \<Rightarrow> session \<Rightarrow> log \<Rightarrow> ((error + result) \<times> client \<times> xstate) option" where
  "extract_resource up db ex res start_date end_date test lim c s lg =
     (case map_of RESOURCE_MODEL_MAP res of
        None \<Rightarrow> Some (Inl (ValueError (''Unsupported resource type: '' @ res)), c, new_xstate s lg)
      | Some t \<Rightarrow>
          (case load_existing db test t s lg of (existing, s', lg') \<Rightarrow>
             page_loop up
               \<lparr>resource_path = the (map_of RESOURCE_ENDPOINT_MAP res),
                last_modified_start = start_date, last_modified_end = end_date, page_size = 100\<rparr>
               db
               \<lparr>resource = res, test_mode = test, limit = lim, existing_source_ids = existing,
                model_class = t, self = ex\<rparr>
               new_pager c (new_xstate s' lg')))"

section \<open>Reference notions for the properties\<close>

text \<open>
  The notions below are not code of the repository; the theorems use them to say what a
  run did. The page loop on a finite list of pages, and what the call makes of its end
  (\<open>t\<close> is the exception that ended the iteration, if one did):
\<close>

fun process_pages :: "database \<Rightarrow> ctx \<Rightarrow> xstate \<Rightarrow> json list \<Rightarrow> outcome" where
  "process_pages db cx x [] = Continue x"
| "process_pages db cx x (pg # rest) =
     (case process_page db cx x pg of
        Continue x' \<Rightarrow> process_pages db cx x' rest
      | other \<Rightarrow> other)"

fun after_pages :: "database \<Rightarrow> ctx \<Rightarrow> error option \<Rightarrow> outcome \<Rightarrow> (error + result) \<times> xstate" where
  "after_pages db cx t (Continue x) = (case t of None \<Rightarrow> finish db cx x | Some e \<Rightarrow> (Inl e, x))"
| "after_pages db cx t (Break x) = finish db cx x"
| "after_pages db cx t (Return x) = (Inr (Records (test_records x)), x)"
| "after_pages db cx t (Raise e x) = (Inl e, x)"





text \<open>The items of a list of pages, in the order the item loop meets them.\<close>

definition all_items :: "json list \<Rightarrow> json list" where
  "all_items ps = concat (map (\<lambda>pg. py_iter (page_items pg)) ps)"

text \<open>
  The rows a session holds or is about to hold: committed, in the open transaction, or
  still in the buffer.
\<close>

definition rows :: "xstate \<Rightarrow> raw_record list" where
  "rows x = committed (sess x) @ pending (sess x) @ buffer x"

text \<open>
  An item is accepted when it has an identifier not seen earlier in the run and not in
  the staging set, and passes validation. \<open>see\<close> is the set of identifiers seen after an
  item; \<open>new_rows\<close> are the rows of the accepted items of a stream.
\<close>

definition accepted :: "ctx \<Rightarrow> string set \<Rightarrow> (string \<times> json) list \<Rightarrow> bool" where
  "accepted cx seen d =
     (entity_id (resource cx) d \<noteq> [] \<and> entity_id (resource cx) d \<notin> seen \<and>
      entity_id (resource cx) d \<notin> existing_source_ids cx \<and> validate_record d (resource cx) = [])"

definition new_row :: "ctx \<Rightarrow> (string \<times> json) list \<Rightarrow> raw_record" where
  "new_row cx d =
     \<lparr>tablename = model_class cx, source_id = entity_id (resource cx) d, raw_data = JDict d,
      etl_batch_id = batch_id (self cx)\<rparr>"

definition see :: "string \<Rightarrow> string set \<Rightarrow> json \<Rightarrow> string set" where
  "see res seen item =
     (case item of
        JDict d \<Rightarrow> if entity_id res d = [] then seen else insert (entity_id res d) seen
      | _ \<Rightarrow> seen)"

fun new_rows :: "ctx \<Rightarrow> string set \<Rightarrow> json list \<Rightarrow> raw_record list" where
  "new_rows cx seen [] = []"
| "new_rows cx seen (item # rest) =
     (case item of JDict d \<Rightarrow> if accepted cx seen d then [new_row cx d] else [] | _ \<Rightarrow> [])
     @ new_rows cx (see (resource cx) seen item) rest"

text \<open>The first item of a stream that resolves to the identifier \<open>i\<close>.\<close>

definition first_with :: "string \<Rightarrow> string \<Rightarrow> json list \<Rightarrow> json option" where
  "first_with res i items =
     find (\<lambda>item. case item of JDict d \<Rightarrow> entity_id res d = i | _ \<Rightarrow> False) items"

text \<open>
  The part of the loop state that decides what is written: the count, the buffer, the
  per-run set and the session. Two outcomes agree when they end the same way on the same
  core.
\<close>

definition core :: "xstate \<Rightarrow> nat \<times> raw_record list \<times> string set \<times> session" where
  "core x = (records_processed x, buffer x, processed_ids x, sess x)"

fun agree :: "outcome \<Rightarrow> outcome \<Rightarrow> bool" where
  "agree (Continue x) (Continue y) = (core x = core y)"
| "agree (Break x) (Break y) = (core x = core y)"
| "agree (Return x) (Return y) = (core x = core y)"
| "agree (Raise e x) (Raise e' y) = (e = e' \<and> core x = core y)"
| "agree _ _ = False"

text \<open>
  Items that are all accepted one after the other: distinct identifiers, none empty, seen
  or stored, all valid.
\<close>

definition fresh :: "ctx \<Rightarrow> string set \<Rightarrow> (string \<times> json) list list \<Rightarrow> bool" where
  "fresh cx seen ds =
     (distinct (map (entity_id (resource cx)) ds) \<and>
      (\<forall>d \<in> set ds. entity_id (resource cx) d \<noteq> [] \<and> entity_id (resource cx) d \<notin> seen \<and>
         entity_id (resource cx) d \<notin> existing_source_ids cx \<and> validate_record d (resource cx) = []))"

definition is_dict :: "json \<Rightarrow> bool" where
  "is_dict v = (case v of JDict _ \<Rightarrow> True | _ \<Rightarrow> False)"

section \<open>Verification\<close>

subsection \<open>Identifier resolution against validation\<close>

lemma str_nat_nonempty: "str_nat n \<noteq> []"
  by (subst str_nat.simps) simp

text \<open>
  Identifier resolution reads \<open>EntityID\<close> alone for every resource but policies, where
  \<open>PolicyId\<close> stands in for an \<open>EntityID\<close> that is missing or false; the validator accepts
  a contact that has \<open>EntityID\<close> or \<open>ContactId\<close>. A contact item whose \<open>EntityID\<close> key is
  absent, or is the empty string, is skipped as having no identifier and counted under
  \<open>skipped_validation\<close>, whatever its \<open>ContactId\<close>.
\<close>

lemma contact_without_entity_id_key:
  "(res \<noteq> ''policies'' \<longrightarrow>
      entity_id res d = py_str (case map_of d ''EntityID'' of None \<Rightarrow> JStr [] | Some v \<Rightarrow> v))
   \<and> (\<not> get_truthy d ''EntityID'' \<and> get_truthy d ''PolicyId'' \<longrightarrow>
        entity_id ''policies'' d = py_str (the (map_of d ''PolicyId'')))
   \<and> (validate_record d ''contacts'' = [] \<longleftrightarrow> get_truthy d ''EntityID'' \<or> get_truthy d ''ContactId'')
   \<and> (resource cx = ''contacts'' \<and>
        (map_of d ''EntityID'' = None \<or> map_of d ''EntityID'' = Some (JStr [])) \<longrightarrow>
        process_item db cx x (JDict d) =
          Continue (x\<lparr>stats := (stats x)\<lparr>stats_skipped_validation :=
                                   stats_skipped_validation (stats x) + 1\<rparr>,
                      logs := logs x @ [(WARNING, ''Skipping record with no EntityID: ''
                                                  @ py_repr (JDict d))]\<rparr>))"
proof (intro conjI impI)
  show "entity_id res d = py_str (case map_of d ''EntityID'' of None \<Rightarrow> JStr [] | Some v \<Rightarrow> v)"
    if "res \<noteq> ''policies''"
    using that by (simp add: entity_id_def)
  show "entity_id ''policies'' d = py_str (the (map_of d ''PolicyId''))"
    if "\<not> get_truthy d ''EntityID'' \<and> get_truthy d ''PolicyId''"
    using that by (simp add: entity_id_def)
  show "validate_record d ''contacts'' = [] \<longleftrightarrow> get_truthy d ''EntityID'' \<or> get_truthy d ''ContactId''"
    by (simp add: validate_record_def id_field_map_def)
  show "process_item db cx x (JDict d) =
          Continue (x\<lparr>stats := (stats x)\<lparr>stats_skipped_validation :=
                                   stats_skipped_validation (stats x) + 1\<rparr>,
                      logs := logs x @ [(WARNING, ''Skipping record with no EntityID: ''
                                                  @ py_repr (JDict d))]\<rparr>)"
    if "resource cx = ''contacts'' \<and>
        (map_of d ''EntityID'' = None \<or> map_of d ''EntityID'' = Some (JStr []))"
  proof -
    have "entity_id (resource cx) d = []"
      using that by (auto simp: entity_id_def py_str_def)
    then show ?thesis
      by (simp add: process_item_def bump_skipped_def del: py_repr.simps)
  qed
qed

text \<open>
  C10. A contact item whose \<open>EntityID\<close> is \<open>null\<close> lacks an \<open>EntityID\<close> by the test the
  validator and the policy fallback apply (\<open>not item.get("EntityID")\<close>), and carries a
  \<open>ContactId\<close>. The item loop does not drop it: \<open>str(None)\<close> is the text \<open>None\<close>, which is not
  empty, so the item passes the identifier check, the validator accepts it through
  \<open>ContactId\<close>, and a row with \<open>source_id\<close> \<open>None\<close> is buffered and committed; nothing is
  counted as skipped.
\<close>

theorem null_entity_id_contact_is_written:
  "\<not> get_truthy [(''EntityID'', JNull), (''ContactId'', JStr ''C-1'')] ''EntityID''
   \<and> entity_id ''contacts'' [(''EntityID'', JNull), (''ContactId'', JStr ''C-1'')] = ''None''
   \<and> process_item (\<lambda>k. None)
         \<lparr>resource = ''contacts'', test_mode = False, limit = None, existing_source_ids = {},
          model_class = ''raw_contacts'', self = \<lparr>batch_size = 1000, batch_id = ''B1''\<rparr>\<rparr>
         (new_xstate \<lparr>committed = [], pending = [], calls = []\<rparr> [])
         (JDict [(''EntityID'', JNull), (''ContactId'', JStr ''C-1'')])
       = Continue
           \<lparr>records_processed = 1,
            buffer = [\<lparr>tablename = ''raw_contacts'', source_id = ''None'',
                       raw_data = JDict [(''EntityID'', JNull), (''ContactId'', JStr ''C-1'')],
                       etl_batch_id = ''B1''\<rparr>],
            validation_errors = 0, processed_ids = {''None''}, test_records = [],
            stats = \<lparr>stats_total_items = 0, stats_skipped_validation = 0,
                     stats_already_in_database = 0, stats_added_to_buffer = 1\<rparr>,
            sess = \<lparr>committed = [], pending = [], calls = []\<rparr>, logs = []\<rparr>
   \<and> map_option (\<lambda>(r, k, x). (r, committed (sess x), stats_skipped_validation (stats x)))
         (extract_resource
            \<lparr>http_get = (\<lambda>k req. (0, if map_of (params req) ''pageNumber'' = Some (PInt 1)
               then Response 200 (Some (JDict [(''Data'',
                      JList [JDict [(''EntityID'', JNull), (''ContactId'', JStr ''C-1'')]])]))
               else Response 200 (Some (JList [])))),
             token_post = (\<lambda>k. (0, ConnectionFailed ''unreachable''))\<rparr>
            (\<lambda>k. None) \<lparr>batch_size = 1000, batch_id = ''B1''\<rparr> ''contacts'' None None False None
            \<lparr>base_url = ''https://api'', access_token = JStr ''T0'', token_expires_at = Some 3600,
             clock = 0, sent = [], token_requests = 0, slept = []\<rparr>
            \<lparr>committed = [], pending = [], calls = []\<rparr> [])
       = Some (Inr (Count 1),
           [\<lparr>tablename = ''raw_contacts'', source_id = ''None'',
             raw_data = JDict [(''EntityID'', JNull), (''ContactId'', JStr ''C-1'')],
             etl_batch_id = ''B1''\<rparr>],
           0)"
  by code_simp

subsection \<open>What a request changes in the client\<close>


lemma get_new_token_frame:
  "get_new_token up c = (r, c') \<Longrightarrow>
     sent c' = sent c \<and> slept c' = slept c \<and> base_url c' = base_url c
     \<and> token_requests c' = token_requests c + 1 \<and> access_token c' = access_token c"
  by (auto simp: get_new_token_def Let_def split: prod.splits reply.splits if_splits option.splits)

lemma refresh_token_frame:
  "refresh_token up c = (r, c') \<Longrightarrow>
     sent c' = sent c \<and> slept c' = slept c \<and> base_url c' = base_url c"
  by (auto simp: refresh_token_def Let_def dest!: get_new_token_frame
      split: prod.splits sum.splits json.splits if_splits option.splits)

lemma refresh_token_fresh:
  "\<not> needs_refresh c \<Longrightarrow> refresh_token up c = (Inr (), c)"
  by (simp add: refresh_token_def)

lemma client_get_frame:
  "client_get up u ps c = (r, c') \<Longrightarrow>
     (\<exists>reqs. sent c' = sent c @ reqs \<and> length reqs \<le> 1 \<and> (\<forall>q \<in> set reqs. params q = ps \<and> url q = u))
     \<and> slept c' = slept c \<and> base_url c' = base_url c"
  by (auto simp: client_get_def get_headers_def Let_def dest!: refresh_token_frame
      split: prod.splits sum.splits reply.splits)

lemma attempt_frame:
  assumes "get_resource_attempt up res ps c = (r, c')"
  shows "(\<exists>reqs. sent c' = sent c @ reqs \<and> length reqs \<le> 2 \<and>
            (\<forall>q \<in> set reqs. params q = ps \<and> url q = base_url c @ ''/'' @ res))
         \<and> slept c' = slept c \<and> base_url c' = base_url c"
  using assms
  apply (auto simp: get_resource_attempt_def Let_def
      split: prod.splits sum.splits if_splits)
  apply (auto dest!: refresh_token_frame client_get_frame)
  done


lemma wait_exponential_first_two:
  "wait_exponential (Suc 0) = 4" "wait_exponential (Suc (Suc 0)) = 4"
  by (simp_all add: wait_exponential_def)

lemma get_resource_three_attempts:
  "get_resource up res ps c =
     (case get_resource_attempt up res ps c of
        (Inr d, c1) \<Rightarrow> (Inr d, c1)
      | (Inl e1, c1) \<Rightarrow>
          (case get_resource_attempt up res ps (sleep 4 c1) of
             (Inr d, c2) \<Rightarrow> (Inr d, c2)
           | (Inl e2, c2) \<Rightarrow> get_resource_attempt up res ps (sleep 4 c2)))"
proof -
  have third: "retrying (Suc (Suc (Suc 0))) up res ps k = get_resource_attempt up res ps k" for k
    by (subst retrying.simps) (simp split: prod.splits sum.splits)
  have second: "retrying (Suc (Suc 0)) up res ps k =
      (case get_resource_attempt up res ps k of
         (Inr d, c2) \<Rightarrow> (Inr d, c2)
       | (Inl e2, c2) \<Rightarrow> get_resource_attempt up res ps (sleep 4 c2))" for k
    by (subst retrying.simps) (simp add: third wait_exponential_first_two split: prod.splits sum.splits)
  show ?thesis
    unfolding get_resource_def
    by (subst retrying.simps) (simp add: second wait_exponential_first_two split: prod.splits sum.splits)
qed

lemma sleep_frame:
  "sent (sleep d c) = sent c" "slept (sleep d c) = slept c @ [d]" "base_url (sleep d c) = base_url c"
  "token_requests (sleep d c) = token_requests c" "clock (sleep d c) = clock c + d"
  by (simp_all add: sleep_def)

text \<open>
  C4, as the code has it. The decorator does not look at the exception: whatever error
  an attempt ends with (404 like 429, a 5xx or a transport failure), the call sleeps four
  seconds and runs the attempt again, and only the third failure propagates, after two
  sleeps. A response with a status outside 2xx other than 401 makes its attempt fail with
  that status; a transport failure makes it fail with the transport error.
\<close>

theorem every_failure_is_retried:
  "(get_resource_attempt up res ps c = (Inr d, c1) \<longrightarrow> get_resource up res ps c = (Inr d, c1))
   \<and> (get_resource_attempt up res ps c = (Inl e1, c1) \<longrightarrow>
        get_resource up res ps c =
          (case get_resource_attempt up res ps (sleep 4 c1) of
             (Inr d, c2) \<Rightarrow> (Inr d, c2)
           | (Inl e2, c2) \<Rightarrow> get_resource_attempt up res ps (sleep 4 c2)))
   \<and> (get_resource up res ps c = (Inl e, c') \<longrightarrow>
        (\<exists>e1 c1 e2 c2.
            get_resource_attempt up res ps c = (Inl e1, c1)
          \<and> get_resource_attempt up res ps (sleep 4 c1) = (Inl e2, c2)
          \<and> get_resource_attempt up res ps (sleep 4 c2) = (Inl e, c')
          \<and> slept c' = slept c @ [4, 4]))
   \<and> (client_get up (base_url c @ ''/'' @ res) ps c = (Inr (st, body), c1) \<and> st \<noteq> 401 \<and> \<not> is_success st \<longrightarrow>
        get_resource_attempt up res ps c = (Inl (HTTPStatusError st), c1))
   \<and> (client_get up (base_url c @ ''/'' @ res) ps c = (Inl e, c1) \<longrightarrow>
        get_resource_attempt up res ps c = (Inl e, c1))"
proof (intro conjI impI)
  show "get_resource up res ps c = (Inr d, c1)" if "get_resource_attempt up res ps c = (Inr d, c1)"
    using that by (simp add: get_resource_three_attempts)
  show "get_resource up res ps c =
          (case get_resource_attempt up res ps (sleep 4 c1) of
             (Inr d, c2) \<Rightarrow> (Inr d, c2)
           | (Inl e2, c2) \<Rightarrow> get_resource_attempt up res ps (sleep 4 c2))"
    if "get_resource_attempt up res ps c = (Inl e1, c1)"
    using that by (simp add: get_resource_three_attempts)
  show "\<exists>e1 c1 e2 c2.
            get_resource_attempt up res ps c = (Inl e1, c1)
          \<and> get_resource_attempt up res ps (sleep 4 c1) = (Inl e2, c2)
          \<and> get_resource_attempt up res ps (sleep 4 c2) = (Inl e, c')
          \<and> slept c' = slept c @ [4, 4]"
    if g: "get_resource up res ps c = (Inl e, c')"
  proof -
    obtain r1 c1 where a1: "get_resource_attempt up res ps c = (r1, c1)" by (cases "get_resource_attempt up res ps c")
    obtain r2 c2 where a2: "get_resource_attempt up res ps (sleep 4 c1) = (r2, c2)"
      by (cases "get_resource_attempt up res ps (sleep 4 c1)")
    obtain r3 c3 where a3: "get_resource_attempt up res ps (sleep 4 c2) = (r3, c3)"
      by (cases "get_resource_attempt up res ps (sleep 4 c2)")
    from g a1 obtain e1 where r1: "r1 = Inl e1"
      by (cases r1) (auto simp: get_resource_three_attempts)
    from g a1 a2 r1 obtain e2 where r2: "r2 = Inl e2"
      by (cases r2) (auto simp: get_resource_three_attempts)
    from g a1 a2 a3 r1 r2 have r3: "r3 = Inl e" "c3 = c'"
      by (auto simp: get_resource_three_attempts)
    have "slept c1 = slept c" using attempt_frame [OF a1] by simp
    moreover have "slept c2 = slept (sleep 4 c1)" using attempt_frame [OF a2] by simp
    moreover have "slept c3 = slept (sleep 4 c2)" using attempt_frame [OF a3] by simp
    ultimately have "slept c' = slept c @ [4, 4]" using r3 by (simp add: sleep_frame)
    with a1 a2 a3 r1 r2 r3 show ?thesis by blast
  qed
  show "get_resource_attempt up res ps c = (Inl (HTTPStatusError st), c1)"
    if "client_get up (base_url c @ ''/'' @ res) ps c = (Inr (st, body), c1) \<and> st \<noteq> 401 \<and> \<not> is_success st"
    using that by (simp add: get_resource_attempt_def read_response_def)
  show "get_resource_attempt up res ps c = (Inl e, c1)"
    if "client_get up (base_url c @ ''/'' @ res) ps c = (Inl e, c1)"
    using that by (simp add: get_resource_attempt_def)
qed

text \<open>
  C4, as the claim states it, fails: against an upstream that answers every request
  with 404, \<open>get_resource\<close> sends three GETs and sleeps twice before the 404 propagates.
\<close>

theorem not_found_is_retried:
  "get_resource
     \<lparr>http_get = (\<lambda>k req. (0, Response 404 None)),
      token_post = (\<lambda>k. (0, ConnectionFailed ''unreachable''))\<rparr>
     ''Contacts/LastModifiedCreated'' [(''pageNumber'', PInt 1), (''pageSize'', PInt 100)]
     \<lparr>base_url = ''https://api'', access_token = JStr ''T0'', token_expires_at = Some 3600,
      clock = 0, sent = [], token_requests = 0, slept = []\<rparr>
   = (Inl (HTTPStatusError 404),
      \<lparr>base_url = ''https://api'', access_token = JStr ''T0'', token_expires_at = Some 3600,
       clock = 8,
       sent = replicate 3 \<lparr>url = ''https://api/Contacts/LastModifiedCreated'',
                            authorization = ''Bearer T0'',
                            params = [(''pageNumber'', PInt 1), (''pageSize'', PInt 100)]\<rparr>,
       token_requests = 0, slept = [4, 4]\<rparr>)"
  by code_simp

theorem every_failure_is_retried_witness:
  "get_resource_attempt
     \<lparr>http_get = (\<lambda>k req. (1, Response 503 None)),
      token_post = (\<lambda>k. (0, ConnectionFailed ''unreachable''))\<rparr>
     ''Policies'' []
     \<lparr>base_url = ''https://api'', access_token = JStr ''T0'', token_expires_at = Some 3600,
      clock = 0, sent = [], token_requests = 0, slept = []\<rparr>
   = (Inl (HTTPStatusError 503),
      \<lparr>base_url = ''https://api'', access_token = JStr ''T0'', token_expires_at = Some 3600,
       clock = 1,
       sent = [\<lparr>url = ''https://api/Policies'', authorization = ''Bearer T0'', params = []\<rparr>],
       token_requests = 0, slept = []\<rparr>)
   \<and> slept (snd (get_resource
     \<lparr>http_get = (\<lambda>k req. (1, Response 503 None)),
      token_post = (\<lambda>k. (0, ConnectionFailed ''unreachable''))\<rparr>
     ''Policies'' []
     \<lparr>base_url = ''https://api'', access_token = JStr ''T0'', token_expires_at = Some 3600,
      clock = 0, sent = [], token_requests = 0, slept = []\<rparr>)) = [4, 4]"
proof -
  let ?up = "\<lparr>http_get = (\<lambda>k req. (1, Response 503 None)),
      token_post = (\<lambda>k. (0, ConnectionFailed ''unreachable''))\<rparr>"
  let ?c = "\<lparr>base_url = ''https://api'', access_token = JStr ''T0'', token_expires_at = Some 3600,
      clock = 0, sent = [], token_requests = 0, slept = []\<rparr>"
  let ?q = "\<lparr>url = ''https://api/Policies'', authorization = ''Bearer T0'', params = []\<rparr>"
  let ?c1 = "\<lparr>base_url = ''https://api'', access_token = JStr ''T0'', token_expires_at = Some 3600,
       clock = 1, sent = [?q], token_requests = 0, slept = []\<rparr>"
  let ?c3 = "\<lparr>base_url = ''https://api'', access_token = JStr ''T0'', token_expires_at = Some 3600,
       clock = 11, sent = [?q, ?q, ?q], token_requests = 0, slept = [4, 4]\<rparr>"
  have a: "client_get ?up (base_url ?c @ ''/'' @ ''Policies'') [] ?c = (Inr (503, None), ?c1)"
    by code_simp
  have g: "get_resource ?up ''Policies'' [] ?c = (Inl (HTTPStatusError 503), ?c3)"
    by code_simp
  have s: "\<not> is_success 503" "(503::nat) \<noteq> 401"
    by (simp_all add: is_success_def)
  note retried = every_failure_is_retried [where up = ?up and res = "''Policies''" and ps = "[]"
      and c = ?c and e = "HTTPStatusError 503" and c' = ?c3 and st = 503 and body = None
      and ?c1.0 = ?c1]
  from retried a s
  have attempt: "get_resource_attempt ?up ''Policies'' [] ?c = (Inl (HTTPStatusError 503), ?c1)"
    by blast
  from retried g have "slept ?c3 = slept ?c @ [4, 4]"
    by blast
  with g have "slept (snd (get_resource ?up ''Policies'' [] ?c)) = [4, 4]"
    by simp
  with attempt show ?thesis by (rule conjI)
qed

subsection \<open>A 401 response\<close>

text \<open>
  C3. The client holds a token that is not near its local expiry; the upstream rejects
  that token with 401 and would accept any other. The 401 branch calls \<open>_refresh_token\<close>,
  which fetches nothing because of the local expiry check: no token request is made, the
  second GET carries the rejected token again and the attempt fails with 401. The decorator
  then repeats the attempt twice more, so six GETs go out and none carries a new token.
\<close>

theorem unauthorized_reuses_rejected_token:
  "get_resource_attempt
     \<lparr>http_get = (\<lambda>k req. (0, if authorization req = ''Bearer T0'' then Response 401 None
                              else Response 200 (Some (JList [])))),
      token_post = (\<lambda>k. (0, Response 200 (Some (JDict [(''access_token'', JStr ''T1''),
                                                       (''expires_in'', JInt 3600)]))))\<rparr>
     ''Contacts'' []
     \<lparr>base_url = ''https://api'', access_token = JStr ''T0'', token_expires_at = Some 3600,
      clock = 0, sent = [], token_requests = 0, slept = []\<rparr>
   = (Inl (HTTPStatusError 401),
      \<lparr>base_url = ''https://api'', access_token = JStr ''T0'', token_expires_at = Some 3600,
       clock = 0,
       sent = replicate 2 \<lparr>url = ''https://api/Contacts'', authorization = ''Bearer T0'', params = []\<rparr>,
       token_requests = 0, slept = []\<rparr>)
   \<and> get_resource
     \<lparr>http_get = (\<lambda>k req. (0, if authorization req = ''Bearer T0'' then Response 401 None
                              else Response 200 (Some (JList [])))),
      token_post = (\<lambda>k. (0, Response 200 (Some (JDict [(''access_token'', JStr ''T1''),
                                                       (''expires_in'', JInt 3600)]))))\<rparr>
     ''Contacts'' []
     \<lparr>base_url = ''https://api'', access_token = JStr ''T0'', token_expires_at = Some 3600,
      clock = 0, sent = [], token_requests = 0, slept = []\<rparr>
   = (Inl (HTTPStatusError 401),
      \<lparr>base_url = ''https://api'', access_token = JStr ''T0'', token_expires_at = Some 3600,
       clock = 8,
       sent = replicate 6 \<lparr>url = ''https://api/Contacts'', authorization = ''Bearer T0'', params = []\<rparr>,
       token_requests = 0, slept = [4, 4]\<rparr>)"
  by code_simp

subsection \<open>Filter parameters\<close>

lemma retrying_frame:
  "retrying n up res ps c = (r, c') \<Longrightarrow>
     \<exists>reqs. sent c' = sent c @ reqs \<and> (\<forall>q \<in> set reqs. params q = ps)"
proof (induction n up res ps c rule: retrying.induct)
  case (1 n up res ps c)
  obtain r1 c1 where a: "get_resource_attempt up res ps c = (r1, c1)"
    by (cases "get_resource_attempt up res ps c")
  from attempt_frame [OF a] obtain reqs1 where
    s1: "sent c1 = sent c @ reqs1" "\<forall>q \<in> set reqs1. params q = ps"
    by blast
  show ?case
  proof (cases r1)
    case (Inr d)
    with a "1.prems" have "c' = c1"
      by (subst (asm) retrying.simps) simp
    with s1 show ?thesis by blast
  next
    case (Inl e)
    show ?thesis
    proof (cases "n \<ge> 3")
      case True
      with a Inl "1.prems" have "c' = c1"
        by (subst (asm) retrying.simps) simp
      with s1 show ?thesis by blast
    next
      case False
      with a Inl "1.prems"
      have rec: "retrying (n + 1) up res ps (sleep (wait_exponential n) c1) = (r, c')"
        by (subst (asm) retrying.simps) simp
      from "1.IH" [OF a [symmetric] Inl False rec] obtain reqs2 where
        "sent c' = sent (sleep (wait_exponential n) c1) @ reqs2" "\<forall>q \<in> set reqs2. params q = ps"
        by blast
      with s1 have "sent c' = sent c @ (reqs1 @ reqs2)" "\<forall>q \<in> set (reqs1 @ reqs2). params q = ps"
        by (auto simp: sleep_frame)
      then show ?thesis by blast
    qed
  qed
qed

lemma fetch_page_params:
  assumes "fetch_page up a g c = (r, c')"
  shows "\<exists>reqs. sent c' = sent c @ reqs \<and>
           (\<forall>q \<in> set reqs. params q = build_params a (page g) (clock c))"
proof -
  obtain r1 c1 where g: "get_resource up (resource_path a) (build_params a (page g) (clock c)) c = (r1, c1)"
    by (cases "get_resource up (resource_path a) (build_params a (page g) (clock c)) c")
  with assms have "c' = c1"
    by (auto simp: fetch_page_def Let_def split: sum.splits if_splits)
  with retrying_frame [OF g [unfolded get_resource_def]] show ?thesis by simp
qed

text \<open>
  C8, as the claim states it, fails: on a path without \<open>LastModifiedCreated\<close>, a start
  bound alone is sent alone; no end bound is added.
\<close>

theorem standard_dialect_has_no_default_end:
  "build_params
     \<lparr>resource_path = ''Policies'', last_modified_start = Some ''2024-01-01T00:00:00'',
      last_modified_end = None, page_size = 100\<rparr> 1 1700000000
   = [(''pageNumber'', PInt 1), (''pageSize'', PInt 100),
      (''lastModifiedStart'', PStr ''2024-01-01T00:00:00'')]"
  by code_simp

text \<open>
  C8, as the code has it. Every request of a page fetch carries the parameters built from
  the endpoint path. On a path that contains \<open>LastModifiedCreated\<close> the filter is
  \<open>startDate\<close> and \<open>endDate\<close>, sent only when a start bound is given, and \<open>endDate\<close> is
  the current time when no end bound is given. On every other path the filter is
  \<open>lastModifiedStart\<close> and \<open>lastModifiedEnd\<close>, each sent exactly when its bound is
  given: a missing end bound is not replaced by the current time.
\<close>

theorem filter_dialect_by_path:
  "(fetch_page up a g c = (r, c') \<longrightarrow>
      (\<exists>reqs. sent c' = sent c @ reqs \<and>
         (\<forall>q \<in> set reqs. params q = build_params a (page g) (clock c))))
   \<and> (contains (resource_path a) ''LastModifiedCreated'' \<and> given (last_modified_start a) \<longrightarrow>
        build_params a pg now =
          [(''pageNumber'', PInt (int pg)), (''pageSize'', PInt (page_size a)),
           (''startDate'', PStr (the (last_modified_start a))),
           (''endDate'', if given (last_modified_end a) then PStr (the (last_modified_end a))
                         else PNow now)])
   \<and> (contains (resource_path a) ''LastModifiedCreated'' \<and> \<not> given (last_modified_start a) \<longrightarrow>
        build_params a pg now = [(''pageNumber'', PInt (int pg)), (''pageSize'', PInt (page_size a))])
   \<and> (\<not> contains (resource_path a) ''LastModifiedCreated'' \<longrightarrow>
        build_params a pg now =
          [(''pageNumber'', PInt (int pg)), (''pageSize'', PInt (page_size a))]
          @ (if given (last_modified_start a)
             then [(''lastModifiedStart'', PStr (the (last_modified_start a)))] else [])
          @ (if given (last_modified_end a)
             then [(''lastModifiedEnd'', PStr (the (last_modified_end a)))] else []))"
  using fetch_page_params [of up a g c r c']
  by (simp add: build_params_def)

theorem filter_dialect_by_path_witness:
  "build_params
     \<lparr>resource_path = ''Contacts/LastModifiedCreated'',
      last_modified_start = Some ''2024-01-01T00:00:00'', last_modified_end = None,
      page_size = 100\<rparr> 2 1700000000
   = [(''pageNumber'', PInt 2), (''pageSize'', PInt 100),
      (''startDate'', PStr ''2024-01-01T00:00:00''), (''endDate'', PNow 1700000000)]"
proof -
  let ?a = "\<lparr>resource_path = ''Contacts/LastModifiedCreated'',
      last_modified_start = Some ''2024-01-01T00:00:00'', last_modified_end = None,
      page_size = 100\<rparr>"
  have h: "contains (resource_path ?a) ''LastModifiedCreated''" "given (last_modified_start ?a)"
    "\<not> given (last_modified_end ?a)"
    by (simp_all add: given_def)
  from filter_dialect_by_path [where a = ?a and pg = 2 and now = 1700000000] h
  show ?thesis by simp
qed

subsection \<open>Flushing\<close>

lemma flush_buffer_ok:
  assumes "flush_buffer db buf s lg = (Inr u, s', lg')"
  shows "committed s' = committed s @ pending s @ buf" "pending s' = []"
    "calls s' = calls s @ [BulkSave buf, Commit]"
    "db (length (calls s)) = None" "db (Suc (length (calls s))) = None"
  using assms
  by (auto simp: flush_buffer_def flush_failed_def bulk_save_objects_def commit_def rollback_def
      Let_def split: option.splits db_fault.splits prod.splits sum.splits)

lemma flush_buffer_ok_iff:
  "db (length (calls s)) = None \<Longrightarrow> db (Suc (length (calls s))) = None \<Longrightarrow>
   flush_buffer db buf s lg =
     (Inr (),
      \<lparr>committed = committed s @ pending s @ buf, pending = [],
       calls = calls s @ [BulkSave buf, Commit]\<rparr>,
      lg @ [(INFO, ''Attempting to flush '' @ str_nat (length buf) @ '' records to database''),
            (INFO, ''Successfully flushed '' @ str_nat (length buf) @ '' records to database'')])"
  by (simp add: flush_buffer_def bulk_save_objects_def commit_def Let_def)

lemma flush_buffer_failed:
  assumes "flush_buffer db buf s lg = (Inl e, s', lg')"
  shows "committed s' = committed s"
    and "calls s' = calls s @ [BulkSave buf, Rollback] \<or>
         calls s' = calls s @ [BulkSave buf, Commit, Rollback]"
    and "db (length (calls s') - 1) = None \<Longrightarrow>
           pending s' = [] \<and>
           (\<exists>m. e = Exception (''Failed to flush buffer to database: '' @ m)) \<and>
           set (record_lines buf) \<subseteq> set lg'"
  using assms
  by (auto simp: flush_buffer_def flush_failed_def bulk_save_objects_def commit_def rollback_def
      fault_error_def Let_def split: option.splits db_fault.splits prod.splits sum.splits)

lemma record_lines_mem:
  "i < length buf \<Longrightarrow>
     (ERROR, ''Record '' @ str_nat i @ '': source_id='' @ source_id (buf ! i)
             @ '', etl_batch_id='' @ etl_batch_id (buf ! i)) \<in> set (record_lines buf)"
proof -
  assume i: "i < length buf"
  then have "(i, buf ! i) \<in> set (zip [0 ..< length buf] buf)"
    by (auto simp: set_zip intro!: exI [of _ i])
  then show ?thesis
    unfolding record_lines_def by (force simp del: upt_Suc)
qed

lemma process_item_raise:
  assumes "process_item db cx x (JDict d) = Raise e x'"
  shows "committed (sess x') = committed (sess x)"
    and "\<exists>b. calls (sess x') = calls (sess x) @ [BulkSave b, Rollback] \<or>
             calls (sess x') = calls (sess x) @ [BulkSave b, Commit, Rollback]"
  using assms
  by (auto simp: process_item_def Let_def bump_skipped_def
      split: if_splits prod.splits sum.splits dest: flush_buffer_failed(1,2))

lemma finish_raise:
  assumes "finish db cx x = (Inl e, x')"
  shows "committed (sess x') = committed (sess x)"
    and "calls (sess x') = calls (sess x) @ [BulkSave (buffer x), Rollback] \<or>
         calls (sess x') = calls (sess x) @ [BulkSave (buffer x), Commit, Rollback]"
  using assms
  by (auto simp: finish_def Let_def split: if_splits prod.splits sum.splits
      dest: flush_buffer_failed(1,2))

subsection \<open>The page loop on the pages the generator yields\<close>

lemma paginate_cases:
  assumes "paginate up a g c = Some (ps, t, c')"
  obtains (raised) e where "next_page up a g c = (Inl e, c')" "ps = []" "t = Some e"
  | (stopped) "next_page up a g c = (Inr None, c')" "ps = []" "t = None"
  | (yielded) pg g1 c1 ps1 where "next_page up a g c = (Inr (Some (pg, g1)), c1)"
      "paginate up a g1 c1 = Some (ps1, t, c')" "ps = pg # ps1"
proof -
  obtain r c1 where n: "next_page up a g c = (r, c1)"
    by (cases "next_page up a g c")
  show ?thesis
  proof (cases r)
    case (Inl e)
    with assms n have "ps = []" "t = Some e" "c' = c1"
      by (subst (asm) paginate.simps, simp)+
    with n Inl raised show ?thesis by simp
  next
    case (Inr opt)
    show ?thesis
    proof (cases opt)
      case None
      with assms n Inr have "ps = []" "t = None" "c' = c1"
        by (subst (asm) paginate.simps, simp)+
      with n Inr None stopped show ?thesis by simp
    next
      case (Some p)
      obtain pg g1 where p: "p = (pg, g1)" by (cases p)
      from assms n Inr Some p
      have "Option.bind (paginate up a g1 c1) (\<lambda>(ds, r). Some (pg # ds, r)) = Some (ps, t, c')"
        by (subst (asm) paginate.simps) simp
      then obtain ps1 where "paginate up a g1 c1 = Some (ps1, t, c')" "ps = pg # ps1"
        by (auto simp: bind_eq_Some_conv)
      with n Inr Some p yielded show ?thesis by simp
    qed
  qed
qed

lemma page_loop_on_pages:
  "paginate up a g c = Some (ps, t, c') \<Longrightarrow>
   \<exists>cf. page_loop up a db cx g c x =
           Some (fst (after_pages db cx t (process_pages db cx x ps)), cf,
                 snd (after_pages db cx t (process_pages db cx x ps)))
        \<and> ((\<exists>y. process_pages db cx x ps = Continue y) \<longrightarrow> cf = c')"
proof (induction ps arbitrary: g c x)
  case Nil
  from Nil.prems show ?case
  proof (cases rule: paginate_cases)
    case (raised e)
    then show ?thesis by (subst page_loop.simps) simp
  next
    case stopped
    then show ?thesis by (subst page_loop.simps) (simp split: prod.splits)
  next
    case (yielded pg g1 c1 ps1)
    then show ?thesis by simp
  qed
next
  case (Cons pg ps)
  from Cons.prems show ?case
  proof (cases rule: paginate_cases)
    case (raised e)
    then show ?thesis by simp
  next
    case stopped
    then show ?thesis by simp
  next
    case (yielded pg1 g1 c1 ps1)
    then have eq: "pg1 = pg" "ps1 = ps" by simp_all
    show ?thesis
    proof (cases "process_page db cx x pg")
      case (Continue x1)
      from Cons.IH [OF yielded(2) [unfolded eq], of x1] obtain cf where
        "page_loop up a db cx g1 c1 x1 =
           Some (fst (after_pages db cx t (process_pages db cx x1 ps)), cf,
                 snd (after_pages db cx t (process_pages db cx x1 ps)))"
        "(\<exists>y. process_pages db cx x1 ps = Continue y) \<longrightarrow> cf = c'"
        by blast
      with yielded(1) eq Continue show ?thesis
        by (subst page_loop.simps) simp
    next
      case (Break x1)
      with yielded(1) eq show ?thesis
        by (subst page_loop.simps) (simp split: prod.splits)
    next
      case (Return x1)
      with yielded(1) eq show ?thesis
        by (subst page_loop.simps) simp
    next
      case (Raise e x1)
      with yielded(1) eq show ?thesis
        by (subst page_loop.simps) simp
    qed
  qed
qed

subsection \<open>What the item loop does to the rows\<close>

lemma process_item_non_dict:
  "\<not> is_dict item \<Longrightarrow> process_item db cx x item = Raise AttributeError x"
  by (cases item) (simp_all add: process_item_def is_dict_def)

lemma flush_buffer_rows:
  "flush_buffer db buf s lg = (Inr u, s', lg') \<Longrightarrow> committed s' @ pending s' = committed s @ pending s @ buf"
  by (simp add: flush_buffer_ok(1,2))

lemma process_item_continue:
  assumes "\<not> test_mode cx" "process_item db cx x (JDict d) = Continue x'"
  shows "rows x' = rows x @ (if accepted cx (processed_ids x) d then [new_row cx d] else [])"
    and "processed_ids x' = see (resource cx) (processed_ids x) (JDict d)"
    and "records_processed x' =
           records_processed x + (if accepted cx (processed_ids x) d then 1 else 0)"
    and "test_records x' = test_records x"
  using assms
  by (auto simp: process_item_def Let_def bump_skipped_def rows_def accepted_def new_row_def
      see_def split: if_splits prod.splits sum.splits dest!: flush_buffer_rows)

lemma process_item_not_accepted:
  assumes "\<not> test_mode cx" "\<not> accepted cx (processed_ids x) d"
  shows "\<exists>x'. process_item db cx x (JDict d) = Continue x' \<and> buffer x' = buffer x \<and>
           sess x' = sess x \<and> records_processed x' = records_processed x \<and>
           processed_ids x' = see (resource cx) (processed_ids x) (JDict d) \<and>
           test_records x' = test_records x"
  using assms
  by (auto simp: process_item_def Let_def bump_skipped_def accepted_def see_def)

lemma new_rows_append:
  "new_rows cx seen (xs @ ys) = new_rows cx seen xs @ new_rows cx (foldl (see (resource cx)) seen xs) ys"
  by (induction xs arbitrary: seen) simp_all

lemma process_items_continue:
  assumes "\<not> test_mode cx"
  shows "process_items db cx x items = Continue x' \<Longrightarrow>
         list_all is_dict items \<and>
         rows x' = rows x @ new_rows cx (processed_ids x) items \<and>
         processed_ids x' = foldl (see (resource cx)) (processed_ids x) items \<and>
         records_processed x' = records_processed x + length (new_rows cx (processed_ids x) items) \<and>
         test_records x' = test_records x"
proof (induction items arbitrary: x)
  case Nil
  then show ?case by simp
next
  case (Cons item rest)
  show ?case
  proof (cases item)
    case (JDict d)
    from Cons.prems JDict obtain x1 where
      s: "process_item db cx x (JDict d) = Continue x1" and r: "process_items db cx x1 rest = Continue x'"
      by (cases "process_item db cx x (JDict d)") simp_all
    note i = process_item_continue [OF assms s]
    from Cons.IH [OF r] i JDict show ?thesis
      by (simp add: is_dict_def)
  qed (use Cons.prems in \<open>simp_all add: process_item_def\<close>)
qed

lemma process_items_none_accepted:
  assumes "\<not> test_mode cx"
  shows "list_all is_dict items \<Longrightarrow> new_rows cx (processed_ids x) items = [] \<Longrightarrow>
         \<exists>x'. process_items db cx x items = Continue x' \<and> buffer x' = buffer x \<and>
           sess x' = sess x \<and> records_processed x' = records_processed x \<and>
           processed_ids x' = foldl (see (resource cx)) (processed_ids x) items \<and>
           test_records x' = test_records x"
proof (induction items arbitrary: x)
  case Nil
  then show ?case by simp
next
  case (Cons item rest)
  from Cons.prems(1) obtain d where d: "item = JDict d"
    by (cases item) (simp_all add: is_dict_def)
  from Cons.prems(2) d have na: "\<not> accepted cx (processed_ids x) d"
    and nr: "new_rows cx (see (resource cx) (processed_ids x) (JDict d)) rest = []"
    by (simp_all split: if_splits)
  from process_item_not_accepted [OF assms na, of db] obtain x1 where
    s: "process_item db cx x (JDict d) = Continue x1" "buffer x1 = buffer x" "sess x1 = sess x"
       "records_processed x1 = records_processed x"
       "processed_ids x1 = see (resource cx) (processed_ids x) (JDict d)"
       "test_records x1 = test_records x"
    by blast
  from Cons.IH [of x1] Cons.prems(1) nr s(5) obtain x' where
    "process_items db cx x1 rest = Continue x'" "buffer x' = buffer x1" "sess x' = sess x1"
    "records_processed x' = records_processed x1"
    "processed_ids x' = foldl (see (resource cx)) (processed_ids x1) rest"
    "test_records x' = test_records x1"
    by auto
  with s d show ?case by simp
qed

lemma py_len_iter: "py_len v = Inr n \<Longrightarrow> length (py_iter v) = n"
  by (cases v) auto

lemma process_page_continue:
  assumes "\<not> test_mode cx" "process_page db cx x pg = Continue x'"
  shows "list_all is_dict (py_iter (page_items pg))"
    and "rows x' = rows x @ new_rows cx (processed_ids x) (py_iter (page_items pg))"
    and "processed_ids x' = foldl (see (resource cx)) (processed_ids x) (py_iter (page_items pg))"
    and "records_processed x' =
           records_processed x + length (new_rows cx (processed_ids x) (py_iter (page_items pg)))"
    and "test_records x' = test_records x"
proof -
  from assms(2) obtain n where n: "py_len (page_items pg) = Inr n"
    by (cases "py_len (page_items pg)") (simp_all add: process_page_def)
  define x1 where "x1 = x\<lparr>stats := (stats x)\<lparr>stats_total_items := stats_total_items (stats x) + n\<rparr>,
      logs := logs x @ [(INFO, ''Processing '' @ str_nat n @ '' items from page ?/?'')]\<rparr>"
  from assms n have p: "process_items db cx x1 (py_iter (page_items pg)) = Continue x'"
    by (auto simp: process_page_def Let_def x1_def split: outcome.splits)
  have "rows x1 = rows x" "processed_ids x1 = processed_ids x"
    "records_processed x1 = records_processed x" "test_records x1 = test_records x"
    by (simp_all add: x1_def rows_def)
  with process_items_continue [OF assms(1) p]
  show "list_all is_dict (py_iter (page_items pg))"
    and "rows x' = rows x @ new_rows cx (processed_ids x) (py_iter (page_items pg))"
    and "processed_ids x' = foldl (see (resource cx)) (processed_ids x) (py_iter (page_items pg))"
    and "records_processed x' =
           records_processed x + length (new_rows cx (processed_ids x) (py_iter (page_items pg)))"
    and "test_records x' = test_records x"
    by simp_all
qed

lemma process_pages_continue:
  assumes "\<not> test_mode cx"
  shows "process_pages db cx x ps = Continue x' \<Longrightarrow>
         list_all is_dict (all_items ps) \<and>
         (\<forall>pg \<in> set ps. \<exists>n. py_len (page_items pg) = Inr n) \<and>
         rows x' = rows x @ new_rows cx (processed_ids x) (all_items ps) \<and>
         processed_ids x' = foldl (see (resource cx)) (processed_ids x) (all_items ps) \<and>
         records_processed x' = records_processed x + length (new_rows cx (processed_ids x) (all_items ps)) \<and>
         test_records x' = test_records x"
proof (induction ps arbitrary: x)
  case Nil
  then show ?case by (simp add: all_items_def)
next
  case (Cons pg rest)
  from Cons.prems obtain x1 where
    s: "process_page db cx x pg = Continue x1" and r: "process_pages db cx x1 rest = Continue x'"
    by (cases "process_page db cx x pg") simp_all
  from s have "\<exists>n. py_len (page_items pg) = Inr n"
    by (cases "py_len (page_items pg)") (simp_all add: process_page_def)
  with Cons.IH [OF r] process_page_continue [OF assms s] show ?case
    by (simp add: all_items_def new_rows_append)
qed

subsection \<open>Runs outside test mode\<close>

lemma process_item_non_test:
  "\<not> test_mode cx \<Longrightarrow> process_item db cx x item \<noteq> Break y \<and> process_item db cx x item \<noteq> Return y"
  by (cases item)
     (auto simp: process_item_def Let_def split: if_splits prod.splits sum.splits)

lemma process_items_non_test:
  "\<not> test_mode cx \<Longrightarrow> process_items db cx x items \<noteq> Break y \<and> process_items db cx x items \<noteq> Return y"
proof (induction items arbitrary: x)
  case Nil
  then show ?case by simp
next
  case (Cons item rest)
  then show ?case
    using process_item_non_test [of cx db x item y]
    by (cases "process_item db cx x item") auto
qed

lemma process_page_non_test:
  "\<not> test_mode cx \<Longrightarrow> process_page db cx x pg \<noteq> Break y \<and> process_page db cx x pg \<noteq> Return y"
  using process_items_non_test [of cx db _ _ y]
  by (auto simp: process_page_def Let_def split: sum.splits outcome.splits)

lemma process_pages_non_test:
  "\<not> test_mode cx \<Longrightarrow> process_pages db cx x ps \<noteq> Break y \<and> process_pages db cx x ps \<noteq> Return y"
proof (induction ps arbitrary: x)
  case Nil
  then show ?case by simp
next
  case (Cons pg rest)
  then show ?case
    using process_page_non_test [of cx db x pg y]
    by (cases "process_page db cx x pg") auto
qed

lemma finish_ok:
  assumes "\<not> test_mode cx" "finish db cx y = (Inr r, x1)"
  shows "committed (sess x1) @ pending (sess x1) = rows y" and "r = Count (records_processed y)"
    and "buffer y = [] \<Longrightarrow> sess x1 = sess y"
  using assms
  by (auto simp: finish_def Let_def rows_def split: if_splits prod.splits sum.splits
      dest!: flush_buffer_rows)

lemma finish_empty_buffer:
  "\<not> test_mode cx \<Longrightarrow> buffer y = [] \<Longrightarrow>
   \<exists>x1. finish db cx y = (Inr (Count (records_processed y)), x1) \<and> sess x1 = sess y \<and>
     buffer x1 = [] \<and> stats x1 = stats y"
  by (simp add: finish_def Let_def)

lemma completed_run:
  assumes nt: "\<not> test_mode cx"
    and pg: "paginate up a g c = Some (ps, t, c')"
    and run: "page_loop up a db cx g c x = Some (Inr r, k, x1)"
  shows "\<exists>y. process_pages db cx x ps = Continue y \<and> t = None \<and> finish db cx y = (Inr r, x1) \<and> k = c'"
proof -
  from page_loop_on_pages [OF pg, of db cx x] run
  have a: "fst (after_pages db cx t (process_pages db cx x ps)) = Inr r"
    "snd (after_pages db cx t (process_pages db cx x ps)) = x1"
    and k: "(\<exists>y. process_pages db cx x ps = Continue y) \<longrightarrow> k = c'"
    by auto
  show ?thesis
  proof (cases "process_pages db cx x ps")
    case (Continue y)
    with a k show ?thesis by (cases t) (auto simp: prod_eq_iff)
  next
    case (Break y)
    with process_pages_non_test [OF nt, of db x ps y] show ?thesis by simp
  next
    case (Return y)
    with process_pages_non_test [OF nt, of db x ps y] show ?thesis by simp
  next
    case (Raise e y)
    with a show ?thesis by simp
  qed
qed

lemma process_page_none_accepted:
  assumes "\<not> test_mode cx" "py_len (page_items pg) = Inr n"
    "list_all is_dict (py_iter (page_items pg))"
    "new_rows cx (processed_ids x) (py_iter (page_items pg)) = []"
  shows "\<exists>x'. process_page db cx x pg = Continue x' \<and> buffer x' = buffer x \<and>
           sess x' = sess x \<and> records_processed x' = records_processed x \<and>
           processed_ids x' = foldl (see (resource cx)) (processed_ids x) (py_iter (page_items pg))"
proof -
  define x1 where "x1 = x\<lparr>stats := (stats x)\<lparr>stats_total_items := stats_total_items (stats x) + n\<rparr>,
      logs := logs x @ [(INFO, ''Processing '' @ str_nat n @ '' items from page ?/?'')]\<rparr>"
  have p: "processed_ids x1 = processed_ids x" "buffer x1 = buffer x" "sess x1 = sess x"
    "records_processed x1 = records_processed x"
    by (simp_all add: x1_def)
  from process_items_none_accepted [OF assms(1,3), of x1 db] assms(4) p obtain x' where
    "process_items db cx x1 (py_iter (page_items pg)) = Continue x'" "buffer x' = buffer x"
    "sess x' = sess x" "records_processed x' = records_processed x"
    "processed_ids x' = foldl (see (resource cx)) (processed_ids x) (py_iter (page_items pg))"
    by auto
  with assms(1,2) show ?thesis
    by (simp add: process_page_def Let_def x1_def)
qed

lemma process_pages_none_accepted:
  assumes "\<not> test_mode cx"
  shows "\<forall>pg \<in> set ps. \<exists>n. py_len (page_items pg) = Inr n \<Longrightarrow>
         list_all is_dict (all_items ps) \<Longrightarrow>
         new_rows cx (processed_ids x) (all_items ps) = [] \<Longrightarrow>
         \<exists>x'. process_pages db cx x ps = Continue x' \<and> buffer x' = buffer x \<and>
           sess x' = sess x \<and> records_processed x' = records_processed x"
proof (induction ps arbitrary: x)
  case Nil
  then show ?case by simp
next
  case (Cons pg rest)
  from Cons.prems(1) obtain n where n: "py_len (page_items pg) = Inr n" by auto
  from Cons.prems(2) have d: "list_all is_dict (py_iter (page_items pg))" "list_all is_dict (all_items rest)"
    by (simp_all add: all_items_def)
  from Cons.prems(3) have e: "new_rows cx (processed_ids x) (py_iter (page_items pg)) = []"
    "new_rows cx (foldl (see (resource cx)) (processed_ids x) (py_iter (page_items pg))) (all_items rest) = []"
    by (simp_all add: all_items_def new_rows_append)
  from process_page_none_accepted [OF assms n d(1) e(1), of db] obtain x1 where
    s: "process_page db cx x pg = Continue x1" "buffer x1 = buffer x" "sess x1 = sess x"
      "records_processed x1 = records_processed x"
      "processed_ids x1 = foldl (see (resource cx)) (processed_ids x) (py_iter (page_items pg))"
    by blast
  from Cons.IH [of x1] Cons.prems(1) d(2) e(2) s(5) obtain x' where
    "process_pages db cx x1 rest = Continue x'" "buffer x' = buffer x1" "sess x' = sess x1"
    "records_processed x' = records_processed x1"
    by auto
  with s show ?case by simp
qed

lemma new_rows_table:
  "r \<in> set (new_rows cx seen items) \<Longrightarrow> tablename r = model_class cx"
  by (induction items arbitrary: seen) (auto simp: new_row_def split: json.splits if_splits)

lemma second_run_accepts_nothing:
  assumes "resource cx2 = resource cx1"
    and "existing_source_ids cx1 \<subseteq> existing_source_ids cx2"
  shows "\<forall>r \<in> set (new_rows cx1 seen items). source_id r \<in> existing_source_ids cx2 \<Longrightarrow>
         new_rows cx2 seen items = []"
proof (induction items arbitrary: seen)
  case Nil
  then show ?case by simp
next
  case (Cons item rest)
  show ?case
  proof (cases item)
    case (JDict d)
    have "\<not> accepted cx2 seen d"
    proof
      assume acc: "accepted cx2 seen d"
      with assms have "accepted cx1 seen d"
        by (auto simp: accepted_def)
      with Cons.prems JDict have "source_id (new_row cx1 d) \<in> existing_source_ids cx2"
        by simp
      with acc assms(1) show False
        by (simp add: accepted_def new_row_def)
    qed
    with Cons JDict assms(1) show ?thesis by simp
  qed (use Cons assms(1) in \<open>simp_all add: see_def\<close>)
qed

subsection \<open>Idempotence\<close>

lemma load_existing_scan:
  assumes "load_existing db False t s lg = (E, s', lg')"
  shows "committed s' = committed s" "pending s' = pending s"
    "calls s' = calls s @ [Execute (''SELECT source_id FROM '' @ t)]"
    "E \<subseteq> source_id ` {r \<in> set (committed s @ pending s). tablename r = t}"
    "db (length (calls s)) = None \<Longrightarrow> E = source_id ` {r \<in> set (committed s @ pending s). tablename r = t}"
  using assms
  by (auto simp: load_existing_def select_source_ids_def Let_def split: option.splits)

lemma extract_resource_registered:
  "map_of RESOURCE_MODEL_MAP res = Some t \<Longrightarrow> load_existing db test t s lg = (E, s', lg') \<Longrightarrow>
   extract_resource up db ex res sd ed test lim c s lg =
     page_loop up
       \<lparr>resource_path = the (map_of RESOURCE_ENDPOINT_MAP res),
        last_modified_start = sd, last_modified_end = ed, page_size = 100\<rparr>
       db
       \<lparr>resource = res, test_mode = test, limit = lim, existing_source_ids = E,
        model_class = t, self = ex\<rparr>
       new_pager c (new_xstate s' lg')"
  by (simp add: extract_resource_def)

lemma extract_resource_unregistered:
  "map_of RESOURCE_MODEL_MAP res = None \<Longrightarrow>
   extract_resource up db ex res sd ed test lim c s lg =
     Some (Inl (ValueError (''Unsupported resource type: '' @ res)), c, new_xstate s lg)"
  by (simp add: extract_resource_def)

text \<open>
  C1. A first run of \<open>extract_resource\<close> outside test mode returns a count; the
  generator yielded the pages \<open>ps\<close> and was exhausted. A second run, for the same resource
  and filter window, starts from the session the first run left; the upstream yields the
  same pages \<open>ps\<close>, and the query of the stored identifiers goes through. Then the second run
  returns the count 0, makes no call on the session besides that query, and leaves the
  committed rows and the open transaction as they were. Clients, upstreams, batch sizes,
  batch identifiers and logs of the two runs may differ.
\<close>

theorem second_run_writes_nothing:
  assumes pages1: "get_paginated_resource up1
        \<lparr>resource_path = the (map_of RESOURCE_ENDPOINT_MAP res),
         last_modified_start = sd, last_modified_end = ed, page_size = 100\<rparr> c1
      = Some (ps, None, c1')"
    and run1: "extract_resource up1 db1 ex1 res sd ed False lim1 c1 s lg1 = Some (Inr n, k1, x1)"
    and pages2: "get_paginated_resource up2
        \<lparr>resource_path = the (map_of RESOURCE_ENDPOINT_MAP res),
         last_modified_start = sd, last_modified_end = ed, page_size = 100\<rparr> c2
      = Some (ps, None, c2')"
    and scan2: "db2 (length (calls (sess x1))) = None"
  shows "\<exists>x2 t. extract_resource up2 db2 ex2 res sd ed False lim2 c2 (sess x1) lg2
                 = Some (Inr (Count 0), c2', x2)
          \<and> map_of RESOURCE_MODEL_MAP res = Some t
          \<and> committed (sess x2) = committed (sess x1)
          \<and> pending (sess x2) = pending (sess x1)
          \<and> calls (sess x2) = calls (sess x1) @ [Execute (''SELECT source_id FROM '' @ t)]
          \<and> buffer x2 = []"
proof -
  let ?a = "\<lparr>resource_path = the (map_of RESOURCE_ENDPOINT_MAP res),
         last_modified_start = sd, last_modified_end = ed, page_size = 100\<rparr>"
  from run1 obtain t where t: "map_of RESOURCE_MODEL_MAP res = Some t"
    by (cases "map_of RESOURCE_MODEL_MAP res") (simp_all add: extract_resource_def)
  obtain E1 s1 l1 where le1: "load_existing db1 False t s lg1 = (E1, s1, l1)"
    by (cases "load_existing db1 False t s lg1")
  obtain E2 s2 l2 where le2: "load_existing db2 False t (sess x1) lg2 = (E2, s2, l2)"
    by (cases "load_existing db2 False t (sess x1) lg2")
  let ?cx1 = "\<lparr>resource = res, test_mode = False, limit = lim1, existing_source_ids = E1,
        model_class = t, self = ex1\<rparr>"
  let ?cx2 = "\<lparr>resource = res, test_mode = False, limit = lim2, existing_source_ids = E2,
        model_class = t, self = ex2\<rparr>"
  have nt: "\<not> test_mode ?cx1" "\<not> test_mode ?cx2" by simp_all
  from run1 have loop1: "page_loop up1 ?a db1 ?cx1 new_pager c1 (new_xstate s1 l1) = Some (Inr n, k1, x1)"
    by (simp add: extract_resource_registered [OF t le1])
  from pages1 have pg1: "paginate up1 ?a new_pager c1 = Some (ps, None, c1')"
    by (simp add: get_paginated_resource_def)
  from pages2 have pg2: "paginate up2 ?a new_pager c2 = Some (ps, None, c2')"
    by (simp add: get_paginated_resource_def)
  from completed_run [OF nt(1) pg1 loop1] obtain y where
    y: "process_pages db1 ?cx1 (new_xstate s1 l1) ps = Continue y" and f: "finish db1 ?cx1 y = (Inr n, x1)"
    by blast
  from process_pages_continue [OF nt(1) y]
  have dicts: "list_all is_dict (all_items ps)"
    and lens: "\<forall>pg \<in> set ps. \<exists>n. py_len (page_items pg) = Inr n"
    and rws: "rows y = rows (new_xstate s1 l1) @ new_rows ?cx1 {} (all_items ps)"
    by (simp_all add: new_xstate_def)
  from finish_ok(1) [OF nt(1) f] rws load_existing_scan(1,2) [OF le1]
  have stored: "committed (sess x1) @ pending (sess x1) =
      committed s @ pending s @ new_rows ?cx1 {} (all_items ps)"
    by (simp add: rows_def new_xstate_def)
  have E2: "E2 = source_id ` {r \<in> set (committed (sess x1) @ pending (sess x1)). tablename r = t}"
    using load_existing_scan(5) [OF le2 scan2] .
  have sub: "E1 \<subseteq> E2"
    using load_existing_scan(4) [OF le1] unfolding E2 stored by auto
  have new: "\<forall>r \<in> set (new_rows ?cx1 {} (all_items ps)). source_id r \<in> existing_source_ids ?cx2"
  proof
    fix r assume r: "r \<in> set (new_rows ?cx1 {} (all_items ps))"
    then have "tablename r = t" using new_rows_table [of r ?cx1] by simp
    with r show "source_id r \<in> existing_source_ids ?cx2"
      unfolding E2 stored by auto
  qed
  have none: "new_rows ?cx2 {} (all_items ps) = []"
    by (rule second_run_accepts_nothing [of ?cx2 ?cx1, OF _ _ new]) (simp_all add: sub)
  from process_pages_none_accepted [OF nt(2) lens dicts, of "new_xstate s2 l2" db2] none
  obtain x' where x': "process_pages db2 ?cx2 (new_xstate s2 l2) ps = Continue x'"
    "buffer x' = []" "sess x' = s2" "records_processed x' = 0"
    by (auto simp: new_xstate_def)
  from finish_empty_buffer [OF nt(2) x'(2), of db2] x'(3,4) obtain x2 where
    x2: "finish db2 ?cx2 x' = (Inr (Count 0), x2)" "sess x2 = s2" "buffer x2 = []"
    by auto
  from page_loop_on_pages [OF pg2, of db2 ?cx2 "new_xstate s2 l2"] x'(1) x2(1)
  have "page_loop up2 ?a db2 ?cx2 new_pager c2 (new_xstate s2 l2) = Some (Inr (Count 0), c2', x2)"
    by auto
  then have "extract_resource up2 db2 ex2 res sd ed False lim2 c2 (sess x1) lg2
      = Some (Inr (Count 0), c2', x2)"
    by (simp add: extract_resource_registered [OF t le2])
  with t x2(2,3) load_existing_scan(1,2,3) [OF le2] show ?thesis
    by simp
qed

theorem second_run_writes_nothing_witness:
  "\<exists>x2. extract_resource
      \<lparr>http_get = (\<lambda>k req. (0, if map_of (params req) ''pageNumber'' = Some (PInt 1)
         then Response 200 (Some (JDict [(''Data'',
                JList [JDict [(''EntityID'', JInt 7)], JDict [(''EntityID'', JStr ''8'')],
                       JDict [(''EntityID'', JInt 7)], JDict [(''ContactId'', JInt 9)]])]))
         else Response 200 (Some (JList [])))),
       token_post = (\<lambda>k. (0, ConnectionFailed ''unreachable''))\<rparr>
      (\<lambda>k. None) \<lparr>batch_size = 1000, batch_id = ''B2''\<rparr> ''contacts'' None None False None
      \<lparr>base_url = ''https://api'', access_token = JStr ''T0'', token_expires_at = Some 3600,
       clock = 0, sent = [], token_requests = 0, slept = []\<rparr>
      \<lparr>committed =
         [\<lparr>tablename = ''raw_contacts'', source_id = ''7'', raw_data = JDict [(''EntityID'', JInt 7)],
           etl_batch_id = ''B1''\<rparr>,
          \<lparr>tablename = ''raw_contacts'', source_id = ''8'', raw_data = JDict [(''EntityID'', JStr ''8'')],
           etl_batch_id = ''B1''\<rparr>],
       pending = [],
       calls =
         [Execute ''SELECT source_id FROM raw_contacts'',
          BulkSave
           [\<lparr>tablename = ''raw_contacts'', source_id = ''7'', raw_data = JDict [(''EntityID'', JInt 7)],
             etl_batch_id = ''B1''\<rparr>,
            \<lparr>tablename = ''raw_contacts'', source_id = ''8'', raw_data = JDict [(''EntityID'', JStr ''8'')],
             etl_batch_id = ''B1''\<rparr>],
          Commit]\<rparr> []
    = Some (Inr (Count 0),
        \<lparr>base_url = ''https://api'', access_token = JStr ''T0'', token_expires_at = Some 3600,
         clock = 0,
         sent = [\<lparr>url = ''https://api/Contacts/LastModifiedCreated'', authorization = ''Bearer T0'',
                  params = [(''pageNumber'', PInt 1), (''pageSize'', PInt 100)]\<rparr>,
                 \<lparr>url = ''https://api/Contacts/LastModifiedCreated'', authorization = ''Bearer T0'',
                  params = [(''pageNumber'', PInt 2), (''pageSize'', PInt 100)]\<rparr>],
         token_requests = 0, slept = []\<rparr>, x2)
    \<and> committed (sess x2) =
         [\<lparr>tablename = ''raw_contacts'', source_id = ''7'', raw_data = JDict [(''EntityID'', JInt 7)],
           etl_batch_id = ''B1''\<rparr>,
          \<lparr>tablename = ''raw_contacts'', source_id = ''8'', raw_data = JDict [(''EntityID'', JStr ''8'')],
           etl_batch_id = ''B1''\<rparr>]"
proof -
  let ?up = "\<lparr>http_get = (\<lambda>k req. (0::int, if map_of (params req) ''pageNumber'' = Some (PInt 1)
         then Response 200 (Some (JDict [(''Data'',
                JList [JDict [(''EntityID'', JInt 7)], JDict [(''EntityID'', JStr ''8'')],
                       JDict [(''EntityID'', JInt 7)], JDict [(''ContactId'', JInt 9)]])]))
         else Response 200 (Some (JList [])))),
       token_post = (\<lambda>k. (0::int, ConnectionFailed ''unreachable''))\<rparr>"
  let ?c = "\<lparr>base_url = ''https://api'', access_token = JStr ''T0'', token_expires_at = Some 3600,
       clock = 0, sent = [], token_requests = 0, slept = []\<rparr>"
  let ?c' = "\<lparr>base_url = ''https://api'', access_token = JStr ''T0'', token_expires_at = Some 3600,
         clock = 0,
         sent = [\<lparr>url = ''https://api/Contacts/LastModifiedCreated'', authorization = ''Bearer T0'',
                  params = [(''pageNumber'', PInt 1), (''pageSize'', PInt 100)]\<rparr>,
                 \<lparr>url = ''https://api/Contacts/LastModifiedCreated'', authorization = ''Bearer T0'',
                  params = [(''pageNumber'', PInt 2), (''pageSize'', PInt 100)]\<rparr>],
         token_requests = 0, slept = []\<rparr>"
  let ?r7 = "\<lparr>tablename = ''raw_contacts'', source_id = ''7'', raw_data = JDict [(''EntityID'', JInt 7)],
           etl_batch_id = ''B1''\<rparr>"
  let ?r8 = "\<lparr>tablename = ''raw_contacts'', source_id = ''8'', raw_data = JDict [(''EntityID'', JStr ''8'')],
           etl_batch_id = ''B1''\<rparr>"
  let ?s0 = "\<lparr>committed = [], pending = [], calls = []\<rparr>"
  let ?s1 = "\<lparr>committed = [?r7, ?r8], pending = [],
       calls = [Execute ''SELECT source_id FROM raw_contacts'', BulkSave [?r7, ?r8], Commit]\<rparr>"
  let ?ps = "[JDict [(''Data'',
                JList [JDict [(''EntityID'', JInt 7)], JDict [(''EntityID'', JStr ''8'')],
                       JDict [(''EntityID'', JInt 7)], JDict [(''ContactId'', JInt 9)]])]]"
  let ?a = "\<lparr>resource_path = the (map_of RESOURCE_ENDPOINT_MAP ''contacts''),
         last_modified_start = None, last_modified_end = None, page_size = 100\<rparr>"
  let ?run1 = "extract_resource ?up (\<lambda>k. None) \<lparr>batch_size = 1000, batch_id = ''B1''\<rparr>
      ''contacts'' None None False None ?c ?s0 []"
  have pages: "get_paginated_resource ?up ?a ?c = Some (?ps, None, ?c')"
    by code_simp
  have "map_option (\<lambda>(r, k, x). (r, sess x)) ?run1 = Some (Inr (Count 2), ?s1)"
    by code_simp
  then obtain k1 x1 where run1: "?run1 = Some (Inr (Count 2), k1, x1)" and s1: "sess x1 = ?s1"
    by auto
  have scan: "(\<lambda>k::nat. None :: db_fault option) (length (calls (sess x1))) = None"
    by simp
  from second_run_writes_nothing [OF pages run1 pages scan,
      of "\<lparr>batch_size = 1000, batch_id = ''B2''\<rparr>" None "[]"]
  show ?thesis
    unfolding s1 by auto
qed

subsection \<open>A failing query of the stored identifiers\<close>

text \<open>
  C9. When the query of the stored identifiers raises, \<open>extract_resource\<close> neither raises
  nor asks again: the query is on the session once, an ERROR line is logged, and the page
  loop runs with an empty set of stored identifiers. In that run an item with an
  identifier not met earlier in the run and passing validation gets a row, whether or not
  a row with its \<open>source_id\<close> is stored already.
\<close>

theorem scan_failure_disables_dedup:
  assumes "map_of RESOURCE_MODEL_MAP res = Some t"
    and "db (length (calls s)) = Some f"
  shows "extract_resource up db ex res sd ed False lim c s lg =
           page_loop up
             \<lparr>resource_path = the (map_of RESOURCE_ENDPOINT_MAP res),
              last_modified_start = sd, last_modified_end = ed, page_size = 100\<rparr>
             db
             \<lparr>resource = res, test_mode = False, limit = lim, existing_source_ids = {},
              model_class = t, self = ex\<rparr>
             new_pager c
             (new_xstate (s\<lparr>calls := calls s @ [Execute (''SELECT source_id FROM '' @ t)]\<rparr>)
                (lg @ [(ERROR, ''Error checking existing records: '' @ str_error (fault_error f))]))
       \<and> (entity_id res d \<noteq> [] \<and> entity_id res d \<notin> processed_ids x \<and> validate_record d res = [] \<and>
          process_item db
            \<lparr>resource = res, test_mode = False, limit = lim, existing_source_ids = {},
             model_class = t, self = ex\<rparr> x (JDict d) = Continue x'
          \<longrightarrow> rows x' = rows x @
                [\<lparr>tablename = t, source_id = entity_id res d, raw_data = JDict d,
                  etl_batch_id = batch_id ex\<rparr>])"
proof (rule conjI)
  from assms(2) have "load_existing db False t s lg =
      ({}, s\<lparr>calls := calls s @ [Execute (''SELECT source_id FROM '' @ t)]\<rparr>,
       lg @ [(ERROR, ''Error checking existing records: '' @ str_error (fault_error f))])"
    by (simp add: load_existing_def select_source_ids_def)
  from extract_resource_registered [OF assms(1) this]
  show "extract_resource up db ex res sd ed False lim c s lg =
           page_loop up
             \<lparr>resource_path = the (map_of RESOURCE_ENDPOINT_MAP res),
              last_modified_start = sd, last_modified_end = ed, page_size = 100\<rparr>
             db
             \<lparr>resource = res, test_mode = False, limit = lim, existing_source_ids = {},
              model_class = t, self = ex\<rparr>
             new_pager c
             (new_xstate (s\<lparr>calls := calls s @ [Execute (''SELECT source_id FROM '' @ t)]\<rparr>)
                (lg @ [(ERROR, ''Error checking existing records: '' @ str_error (fault_error f))]))" .
  let ?cx = "\<lparr>resource = res, test_mode = False, limit = lim, existing_source_ids = {},
            model_class = t, self = ex\<rparr>"
  show "entity_id res d \<noteq> [] \<and> entity_id res d \<notin> processed_ids x \<and> validate_record d res = [] \<and>
         process_item db ?cx x (JDict d) = Continue x'
         \<longrightarrow> rows x' = rows x @
               [\<lparr>tablename = t, source_id = entity_id res d, raw_data = JDict d,
                 etl_batch_id = batch_id ex\<rparr>]"
  proof
    assume h: "entity_id res d \<noteq> [] \<and> entity_id res d \<notin> processed_ids x \<and> validate_record d res = [] \<and>
         process_item db ?cx x (JDict d) = Continue x'"
    then have "accepted ?cx (processed_ids x) d"
      by (simp add: accepted_def)
    with process_item_continue(1) [of ?cx db x d x'] h show "rows x' = rows x @
               [\<lparr>tablename = t, source_id = entity_id res d, raw_data = JDict d,
                 etl_batch_id = batch_id ex\<rparr>]"
      by (simp add: new_row_def)
  qed
qed

theorem scan_failure_disables_dedup_witness:
  "map_option (\<lambda>(r, k, x). (r, committed (sess x), calls (sess x)))
     (extract_resource
        \<lparr>http_get = (\<lambda>k req. (0, if map_of (params req) ''pageNumber'' = Some (PInt 1)
           then Response 200 (Some (JList [JDict [(''EntityID'', JInt 7)]]))
           else Response 200 (Some (JList [])))),
         token_post = (\<lambda>k. (0, ConnectionFailed ''unreachable''))\<rparr>
        (\<lambda>k. if k = 0 then Some (Fault ''relation raw_contacts does not exist'' 0) else None)
        \<lparr>batch_size = 1000, batch_id = ''B2''\<rparr> ''contacts'' None None False None
        \<lparr>base_url = ''https://api'', access_token = JStr ''T0'', token_expires_at = Some 3600,
         clock = 0, sent = [], token_requests = 0, slept = []\<rparr>
        \<lparr>committed = [\<lparr>tablename = ''raw_contacts'', source_id = ''7'',
                        raw_data = JDict [(''EntityID'', JInt 7)], etl_batch_id = ''B1''\<rparr>],
         pending = [], calls = []\<rparr> [])
   = Some (Inr (Count 1),
       [\<lparr>tablename = ''raw_contacts'', source_id = ''7'', raw_data = JDict [(''EntityID'', JInt 7)],
         etl_batch_id = ''B1''\<rparr>,
        \<lparr>tablename = ''raw_contacts'', source_id = ''7'', raw_data = JDict [(''EntityID'', JInt 7)],
         etl_batch_id = ''B2''\<rparr>],
       [Execute ''SELECT source_id FROM raw_contacts'',
        BulkSave [\<lparr>tablename = ''raw_contacts'', source_id = ''7'',
                   raw_data = JDict [(''EntityID'', JInt 7)], etl_batch_id = ''B2''\<rparr>],
        Commit])"
proof -
  let ?db = "\<lambda>k::nat. if k = 0 then Some (Fault ''relation raw_contacts does not exist'' 0) else None"
  let ?s = "\<lparr>committed = [\<lparr>tablename = ''raw_contacts'', source_id = ''7'',
                        raw_data = JDict [(''EntityID'', JInt 7)], etl_batch_id = ''B1''\<rparr>],
         pending = [], calls = []\<rparr>"
  have t: "map_of RESOURCE_MODEL_MAP ''contacts'' = Some ''raw_contacts''"
    by (simp add: RESOURCE_MODEL_MAP_def)
  have f: "?db (length (calls ?s)) = Some (Fault ''relation raw_contacts does not exist'' 0)"
    by simp
  note run = scan_failure_disables_dedup [where db = ?db and s = ?s, OF t f, THEN conjunct1]
  show ?thesis
    unfolding run by code_simp
qed

subsection \<open>Duplicates within a run\<close>

lemma new_rows_fresh:
  "source_id ` set (new_rows cx seen items) \<inter> seen = {} \<and> distinct (map source_id (new_rows cx seen items))"
proof (induction items arbitrary: seen)
  case Nil
  then show ?case by simp
next
  case (Cons item rest)
  show ?case
  proof (cases item)
    case (JDict d)
    from Cons.IH [of "see (resource cx) seen item"] JDict show ?thesis
      by (auto simp: see_def accepted_def new_row_def split: if_splits)
  qed (use Cons.IH [of seen] in \<open>simp_all add: see_def\<close>)
qed

lemma new_rows_ids:
  "i \<in> source_id ` set (new_rows cx seen items) \<longleftrightarrow>
     i \<noteq> [] \<and> i \<notin> seen \<and> i \<notin> existing_source_ids cx \<and>
     (\<exists>d. first_with (resource cx) i items = Some (JDict d) \<and> validate_record d (resource cx) = [])"
proof (induction items arbitrary: seen)
  case Nil
  then show ?case by (simp add: first_with_def)
next
  case (Cons item rest)
  show ?case
  proof (cases item)
    case (JDict d)
    show ?thesis
    proof (cases "entity_id (resource cx) d = i")
      case True
      have "i \<notin> source_id ` set (new_rows cx (see (resource cx) seen item) rest)"
        using Cons.IH [of "see (resource cx) seen item"] JDict True
        by (auto simp: see_def)
      with JDict True show ?thesis
        by (auto simp: first_with_def accepted_def new_row_def image_Un)
    next
      case False
      with Cons.IH [of "see (resource cx) seen item"] JDict show ?thesis
        by (auto simp: first_with_def accepted_def new_row_def see_def image_Un)
    qed
  qed (use Cons.IH [of seen] in \<open>simp_all add: see_def first_with_def\<close>)
qed

lemma completed_run_rows:
  assumes t: "map_of RESOURCE_MODEL_MAP res = Some t"
    and le: "load_existing db False t s lg = (E, s', lg')"
    and pages: "get_paginated_resource up
        \<lparr>resource_path = the (map_of RESOURCE_ENDPOINT_MAP res),
         last_modified_start = sd, last_modified_end = ed, page_size = 100\<rparr> c
      = Some (ps, None, c')"
    and run: "extract_resource up db ex res sd ed False lim c s lg = Some (Inr n, k, x1)"
  shows "committed (sess x1) @ pending (sess x1) =
           committed s @ pending s @
           new_rows \<lparr>resource = res, test_mode = False, limit = lim, existing_source_ids = E,
                     model_class = t, self = ex\<rparr> {} (all_items ps)"
    and "n = Count (length (new_rows \<lparr>resource = res, test_mode = False, limit = lim,
                     existing_source_ids = E, model_class = t, self = ex\<rparr> {} (all_items ps)))"
    and "k = c'"
proof -
  let ?a = "\<lparr>resource_path = the (map_of RESOURCE_ENDPOINT_MAP res),
         last_modified_start = sd, last_modified_end = ed, page_size = 100\<rparr>"
  let ?cx = "\<lparr>resource = res, test_mode = False, limit = lim, existing_source_ids = E,
        model_class = t, self = ex\<rparr>"
  have nt: "\<not> test_mode ?cx" by simp
  from run have loop: "page_loop up ?a db ?cx new_pager c (new_xstate s' lg') = Some (Inr n, k, x1)"
    by (simp add: extract_resource_registered [OF t le])
  from pages have pg: "paginate up ?a new_pager c = Some (ps, None, c')"
    by (simp add: get_paginated_resource_def)
  from completed_run [OF nt pg loop] obtain y where
    y: "process_pages db ?cx (new_xstate s' lg') ps = Continue y" and f: "finish db ?cx y = (Inr n, x1)"
    and k: "k = c'"
    by blast
  from process_pages_continue [OF nt y]
  have rws: "rows y = rows (new_xstate s' lg') @ new_rows ?cx {} (all_items ps)"
    and cnt: "records_processed y = length (new_rows ?cx {} (all_items ps))"
    by (simp_all add: new_xstate_def)
  from finish_ok(1) [OF nt f] rws load_existing_scan(1,2) [OF le]
  show "committed (sess x1) @ pending (sess x1) =
      committed s @ pending s @ new_rows ?cx {} (all_items ps)"
    by (simp add: rows_def new_xstate_def)
  from finish_ok(2) [OF nt f] cnt
  show "n = Count (length (new_rows ?cx {} (all_items ps)))"
    by simp
  show "k = c'" by (rule k)
qed

text \<open>
  C2, as the claim states it, fails: two policy items resolve to the identifier \<open>1\<close>; the
  first lacks a policy number and fails validation, the second is valid. The first puts
  the identifier into the per-run set before it is validated, so the second is skipped as
  a duplicate and no row is written for the identifier.
\<close>

theorem invalid_first_occurrence_shadows_valid_one:
  "map_option (\<lambda>(r, k, x). (r, committed (sess x), pending (sess x), buffer x))
     (extract_resource
        \<lparr>http_get = (\<lambda>k req. (0, if map_of (params req) ''pageNumber'' = Some (PInt 1)
           then Response 200 (Some (JDict [(''Data'',
                  JList [JDict [(''EntityID'', JStr ''1'')],
                         JDict [(''EntityID'', JStr ''1''), (''PolicyNumber'', JStr ''PN-1''),
                                (''Status'', JStr ''Active'')]])]))
           else Response 200 (Some (JList [])))),
         token_post = (\<lambda>k. (0, ConnectionFailed ''unreachable''))\<rparr>
        (\<lambda>k. None) \<lparr>batch_size = 1000, batch_id = ''B1''\<rparr> ''policies'' None None False None
        \<lparr>base_url = ''https://api'', access_token = JStr ''T0'', token_expires_at = Some 3600,
         clock = 0, sent = [], token_requests = 0, slept = []\<rparr>
        \<lparr>committed = [], pending = [], calls = []\<rparr> [])
   = Some (Inr (Count 0), [], [], [])
   \<and> entity_id ''policies'' [(''EntityID'', JStr ''1'')] = ''1''
   \<and> entity_id ''policies'' [(''EntityID'', JStr ''1''), (''PolicyNumber'', JStr ''PN-1''),
                              (''Status'', JStr ''Active'')] = ''1''
   \<and> validate_record [(''EntityID'', JStr ''1''), (''PolicyNumber'', JStr ''PN-1''),
                       (''Status'', JStr ''Active'')] ''policies'' = []"
  by code_simp

text \<open>
  C2, as the code has it. In a run outside test mode that returns a count, the rows
  written are \<open>new\<close>: no two of them share a \<open>source_id\<close>, and an identifier has a row
  exactly when it is not empty, is not in the staging set \<open>E\<close> loaded at the start, and the
  first item of the stream that resolves to it passes validation. An item whose identifier
  is in the per-run set is skipped with the state untouched, before the staging set is
  looked at; an item met for the first time whose identifier is in the staging set is
  skipped and counted under \<open>already_in_database\<close>. Neither raises.
\<close>

theorem at_most_one_row_per_identifier:
  assumes "map_of RESOURCE_MODEL_MAP res = Some t"
    and "load_existing db False t s lg = (E, s', lg')"
    and "get_paginated_resource up
        \<lparr>resource_path = the (map_of RESOURCE_ENDPOINT_MAP res),
         last_modified_start = sd, last_modified_end = ed, page_size = 100\<rparr> c
      = Some (ps, None, c')"
    and "extract_resource up db ex res sd ed False lim c s lg = Some (Inr n, k, x1)"
  shows "\<exists>new. committed (sess x1) @ pending (sess x1) = committed s @ pending s @ new
          \<and> n = Count (length new)
          \<and> distinct (map source_id new)
          \<and> (\<forall>i. i \<in> source_id ` set new \<longleftrightarrow>
                 i \<noteq> [] \<and> i \<notin> E \<and>
                 (\<exists>d. first_with res i (all_items ps) = Some (JDict d) \<and> validate_record d res = []))
          \<and> (\<forall>x d. entity_id res d \<noteq> [] \<and> entity_id res d \<in> processed_ids x \<longrightarrow>
                 process_item db
                   \<lparr>resource = res, test_mode = False, limit = lim, existing_source_ids = E,
                    model_class = t, self = ex\<rparr> x (JDict d) = Continue x)
          \<and> (\<forall>x d. entity_id res d \<noteq> [] \<and> entity_id res d \<notin> processed_ids x \<and> entity_id res d \<in> E \<longrightarrow>
                 process_item db
                   \<lparr>resource = res, test_mode = False, limit = lim, existing_source_ids = E,
                    model_class = t, self = ex\<rparr> x (JDict d)
                 = Continue (x\<lparr>processed_ids := insert (entity_id res d) (processed_ids x),
                               stats := (stats x)\<lparr>stats_already_in_database :=
                                          stats_already_in_database (stats x) + 1\<rparr>\<rparr>))"
proof -
  let ?cx = "\<lparr>resource = res, test_mode = False, limit = lim, existing_source_ids = E,
        model_class = t, self = ex\<rparr>"
  let ?new = "new_rows ?cx {} (all_items ps)"
  note r = completed_run_rows [OF assms]
  have d: "distinct (map source_id ?new)"
    using new_rows_fresh [of ?cx "{}" "all_items ps"] by simp
  have m: "\<forall>i. i \<in> source_id ` set ?new \<longleftrightarrow>
      i \<noteq> [] \<and> i \<notin> E \<and>
      (\<exists>d. first_with res i (all_items ps) = Some (JDict d) \<and> validate_record d res = [])"
    using new_rows_ids [of _ ?cx "{}" "all_items ps"] by simp
  have a: "\<forall>x d. entity_id res d \<noteq> [] \<and> entity_id res d \<in> processed_ids x \<longrightarrow>
      process_item db ?cx x (JDict d) = Continue x"
    by (simp add: process_item_def)
  have b: "\<forall>x d. entity_id res d \<noteq> [] \<and> entity_id res d \<notin> processed_ids x \<and> entity_id res d \<in> E \<longrightarrow>
      process_item db ?cx x (JDict d)
      = Continue (x\<lparr>processed_ids := insert (entity_id res d) (processed_ids x),
                    stats := (stats x)\<lparr>stats_already_in_database :=
                               stats_already_in_database (stats x) + 1\<rparr>\<rparr>)"
    by (simp add: process_item_def Let_def)
  from r(1,2) d m a b show ?thesis
    by blast
qed

theorem at_most_one_row_per_identifier_witness:
  "\<exists>x1 k new.
     extract_resource
        \<lparr>http_get = (\<lambda>k req. (0, if map_of (params req) ''pageNumber'' = Some (PInt 1)
           then Response 200 (Some (JList
                  [JDict [(''EntityID'', JStr ''A'')], JDict [(''EntityID'', JStr ''B'')],
                   JDict [(''EntityID'', JStr ''A''), (''Name'', JStr ''again'')]]))
           else Response 200 (Some (JList [])))),
         token_post = (\<lambda>k. (0, ConnectionFailed ''unreachable''))\<rparr>
        (\<lambda>k. None) \<lparr>batch_size = 1000, batch_id = ''B1''\<rparr> ''contacts'' None None False None
        \<lparr>base_url = ''https://api'', access_token = JStr ''T0'', token_expires_at = Some 3600,
         clock = 0, sent = [], token_requests = 0, slept = []\<rparr>
        \<lparr>committed = [\<lparr>tablename = ''raw_contacts'', source_id = ''B'', raw_data = JNull,
                        etl_batch_id = ''B0''\<rparr>],
         pending = [], calls = []\<rparr> []
     = Some (Inr (Count (length new)), k, x1)
     \<and> committed (sess x1) @ pending (sess x1)
        = [\<lparr>tablename = ''raw_contacts'', source_id = ''B'', raw_data = JNull, etl_batch_id = ''B0''\<rparr>] @ new
     \<and> distinct (map source_id new)
     \<and> ''A'' \<in> source_id ` set new \<and> ''B'' \<notin> source_id ` set new"
proof -
  let ?up = "\<lparr>http_get = (\<lambda>k req. (0::int, if map_of (params req) ''pageNumber'' = Some (PInt 1)
           then Response 200 (Some (JList
                  [JDict [(''EntityID'', JStr ''A'')], JDict [(''EntityID'', JStr ''B'')],
                   JDict [(''EntityID'', JStr ''A''), (''Name'', JStr ''again'')]]))
           else Response 200 (Some (JList [])))),
         token_post = (\<lambda>k. (0::int, ConnectionFailed ''unreachable''))\<rparr>"
  let ?db = "\<lambda>k::nat. None :: db_fault option"
  let ?ex = "\<lparr>batch_size = 1000, batch_id = ''B1''\<rparr>"
  let ?c = "\<lparr>base_url = ''https://api'', access_token = JStr ''T0'', token_expires_at = Some 3600,
         clock = 0, sent = [], token_requests = 0, slept = []\<rparr>"
  let ?c' = "\<lparr>base_url = ''https://api'', access_token = JStr ''T0'', token_expires_at = Some 3600,
         clock = 0,
         sent = [\<lparr>url = ''https://api/Contacts/LastModifiedCreated'', authorization = ''Bearer T0'',
                  params = [(''pageNumber'', PInt 1), (''pageSize'', PInt 100)]\<rparr>,
                 \<lparr>url = ''https://api/Contacts/LastModifiedCreated'', authorization = ''Bearer T0'',
                  params = [(''pageNumber'', PInt 2), (''pageSize'', PInt 100)]\<rparr>],
         token_requests = 0, slept = []\<rparr>"
  let ?rb = "\<lparr>tablename = ''raw_contacts'', source_id = ''B'', raw_data = JNull, etl_batch_id = ''B0''\<rparr>"
  let ?s = "\<lparr>committed = [?rb], pending = [], calls = []\<rparr>"
  let ?ps = "[JList [JDict [(''EntityID'', JStr ''A'')], JDict [(''EntityID'', JStr ''B'')],
                   JDict [(''EntityID'', JStr ''A''), (''Name'', JStr ''again'')]]]"
  let ?run = "extract_resource ?up ?db ?ex ''contacts'' None None False None ?c ?s []"
  have t: "map_of RESOURCE_MODEL_MAP ''contacts'' = Some ''raw_contacts''"
    by (simp add: RESOURCE_MODEL_MAP_def)
  have le: "load_existing ?db False ''raw_contacts'' ?s []
      = ({''B''}, ?s\<lparr>calls := [Execute ''SELECT source_id FROM raw_contacts'']\<rparr>,
         [(INFO, ''Found 1 existing records in raw_contacts'')])"
    by code_simp
  have pages: "get_paginated_resource ?up
      \<lparr>resource_path = the (map_of RESOURCE_ENDPOINT_MAP ''contacts''),
       last_modified_start = None, last_modified_end = None, page_size = 100\<rparr> ?c
      = Some (?ps, None, ?c')"
    by code_simp
  have "map_option fst ?run = Some (Inr (Count 1))"
    by code_simp
  then obtain k x1 where run: "?run = Some (Inr (Count 1), k, x1)"
    by auto
  have fa: "first_with ''contacts'' ''A'' (all_items ?ps) = Some (JDict [(''EntityID'', JStr ''A'')])"
    by code_simp
  have va: "validate_record [(''EntityID'', JStr ''A'')] ''contacts'' = []"
    by code_simp
  from at_most_one_row_per_identifier [OF t le pages run] obtain new where
    new: "committed (sess x1) @ pending (sess x1) = committed ?s @ pending ?s @ new"
      "Count 1 = Count (length new)" "distinct (map source_id new)"
      "\<forall>i. i \<in> source_id ` set new \<longleftrightarrow>
          i \<noteq> [] \<and> i \<notin> {''B''} \<and>
          (\<exists>d. first_with ''contacts'' i (all_items ?ps) = Some (JDict d) \<and> validate_record d ''contacts'' = [])"
    by (elim exE conjE) (rule that; assumption)
  from new(4) [rule_format, of "''A''"] fa va have a: "''A'' \<in> source_id ` set new"
    by simp
  from new(4) [rule_format, of "''B''"] have b: "''B'' \<notin> source_id ` set new"
    by simp
  from new(2) have len: "length new = 1"
    by simp
  from run new(1,3) a b len show ?thesis
    by (intro exI [of _ x1] exI [of _ k] exI [of _ new]) simp
qed

subsection \<open>Batches\<close>

lemma flush_buffer_log_free:
  "fst (flush_buffer db buf s lg) = fst (flush_buffer db buf s lg2) \<and>
   fst (snd (flush_buffer db buf s lg)) = fst (snd (flush_buffer db buf s lg2))"
  by (auto simp: flush_buffer_def flush_failed_def Let_def split: prod.splits sum.splits)

lemma process_item_agree:
  assumes "\<not> test_mode cx" "core x = core y"
  shows "agree (process_item db cx x item) (process_item db cx y item)"
proof (cases item)
  case (JDict d)
  from assms(2) have c: "records_processed x = records_processed y" "buffer x = buffer y"
    "processed_ids x = processed_ids y" "sess x = sess y"
    by (simp_all add: core_def)
  let ?buf = "buffer y @ [\<lparr>tablename = model_class cx, source_id = entity_id (resource cx) d,
      raw_data = JDict d, etl_batch_id = batch_id (self cx)\<rparr>]"
  let ?lx = "logs x @ validation_log d (resource cx) []"
  let ?ly = "logs y @ validation_log d (resource cx) []"
  obtain r1 s1 l1 where f1: "flush_buffer db ?buf (sess y) ?lx = (r1, s1, l1)"
    by (cases "flush_buffer db ?buf (sess y) ?lx")
  obtain r2 s2 l2 where f2: "flush_buffer db ?buf (sess y) ?ly = (r2, s2, l2)"
    by (cases "flush_buffer db ?buf (sess y) ?ly")
  from flush_buffer_log_free [of db ?buf "sess y" ?lx ?ly] f1 f2 have e: "r1 = r2" "s1 = s2"
    by simp_all
  from JDict assms(1) c f1 f2 e show ?thesis
    by (cases r2) (simp_all add: process_item_def Let_def bump_skipped_def core_def)
qed (simp_all add: process_item_def assms(2))

lemma process_items_agree:
  assumes "\<not> test_mode cx"
  shows "core x = core y \<Longrightarrow> agree (process_items db cx x items) (process_items db cx y items)"
proof (induction items arbitrary: x y)
  case Nil
  then show ?case by simp
next
  case (Cons item rest)
  from process_item_agree [OF assms Cons.prems, of db item] Cons.IH show ?case
    by (cases "process_item db cx x item"; cases "process_item db cx y item") simp_all
qed

lemma process_items_append:
  "process_items db cx x (xs @ ys) =
     (case process_items db cx x xs of Continue x' \<Rightarrow> process_items db cx x' ys | other \<Rightarrow> other)"
  by (induction xs arbitrary: x) (simp_all split: outcome.splits)

lemma agree_trans: "agree a b \<Longrightarrow> agree b c \<Longrightarrow> agree a c"
  by (cases a; cases b; cases c) simp_all

lemma agree_refl: "agree a a"
  by (cases a) simp_all

lemma process_page_agree:
  assumes "\<not> test_mode cx" "page_items pg = JList xs"
  shows "agree (process_page db cx x pg) (process_items db cx x xs)"
proof -
  let ?x1 = "x\<lparr>stats := (stats x)\<lparr>stats_total_items := stats_total_items (stats x) + length xs\<rparr>,
      logs := logs x @ [(INFO, ''Processing '' @ str_nat (length xs) @ '' items from page ?/?'')]\<rparr>"
  have "core ?x1 = core x" by (simp add: core_def)
  from process_items_agree [OF assms(1) this, of db xs]
  have a: "agree (process_items db cx ?x1 xs) (process_items db cx x xs)" .
  have "process_page db cx x pg = process_items db cx ?x1 xs"
    using assms by (simp add: process_page_def Let_def split: outcome.splits)
  with a show ?thesis by simp
qed

lemma process_pages_agree:
  assumes "\<not> test_mode cx"
  shows "\<forall>pg \<in> set ps. \<exists>xs. page_items pg = JList xs \<Longrightarrow> core x = core y \<Longrightarrow>
         agree (process_pages db cx x ps) (process_items db cx y (all_items ps))"
proof (induction ps arbitrary: x y)
  case Nil
  then show ?case by (simp add: all_items_def)
next
  case (Cons pg rest)
  from Cons.prems(1) obtain xs where xs: "page_items pg = JList xs" by auto
  have items: "all_items (pg # rest) = xs @ all_items rest"
    by (simp add: all_items_def xs)
  have a: "agree (process_page db cx x pg) (process_items db cx y xs)"
    by (rule agree_trans [OF process_page_agree [OF assms xs] process_items_agree [OF assms Cons.prems(2)]])
  show ?case
  proof (cases "process_page db cx x pg")
    case (Continue x1)
    with a obtain y1 where y1: "process_items db cx y xs = Continue y1" "core x1 = core y1"
      by (cases "process_items db cx y xs") simp_all
    from Cons.IH [OF _ y1(2)] Cons.prems(1) Continue y1(1) show ?thesis
      by (simp add: items process_items_append)
  next
    case (Break x1)
    with a show ?thesis
      by (cases "process_items db cx y xs") (simp_all add: items process_items_append)
  next
    case (Return x1)
    with a show ?thesis
      by (cases "process_items db cx y xs") (simp_all add: items process_items_append)
  next
    case (Raise e x1)
    with a show ?thesis
      by (cases "process_items db cx y xs") (simp_all add: items process_items_append)
  qed
qed

lemma fresh_Cons:
  "fresh cx seen (d # ds) \<longleftrightarrow>
     entity_id (resource cx) d \<noteq> [] \<and> entity_id (resource cx) d \<notin> seen \<and>
     entity_id (resource cx) d \<notin> existing_source_ids cx \<and> validate_record d (resource cx) = [] \<and>
     fresh cx (insert (entity_id (resource cx) d) seen) ds"
proof -
  have "entity_id (resource cx) d \<notin> entity_id (resource cx) ` set ds \<longleftrightarrow>
      (\<forall>e \<in> set ds. entity_id (resource cx) e \<noteq> entity_id (resource cx) d)"
    by (simp add: image_iff) metis
  then show ?thesis
    unfolding fresh_def by simp blast
qed

lemma fresh_append:
  "fresh cx seen (ds1 @ ds2) \<longleftrightarrow>
     fresh cx seen ds1 \<and> fresh cx (seen \<union> entity_id (resource cx) ` set ds1) ds2"
proof (induction ds1 arbitrary: seen)
  case Nil
  then show ?case by (simp add: fresh_def)
next
  case (Cons d ds1)
  have "insert (entity_id (resource cx) d) seen \<union> entity_id (resource cx) ` set ds1
      = seen \<union> entity_id (resource cx) ` set (d # ds1)"
    by auto
  with Cons.IH [of "insert (entity_id (resource cx) d) seen"] show ?case
    by (simp add: fresh_Cons)
qed

lemma buffering_below_batch_size:
  assumes "\<not> test_mode cx"
  shows "fresh cx (processed_ids x) ds \<Longrightarrow>
         int (length (buffer x) + length ds) < batch_size (self cx) \<Longrightarrow>
         \<exists>x'. process_items db cx x (map JDict ds) = Continue x' \<and>
           buffer x' = buffer x @ map (new_row cx) ds \<and> sess x' = sess x \<and>
           processed_ids x' = processed_ids x \<union> entity_id (resource cx) ` set ds \<and>
           records_processed x' = records_processed x + length ds"
proof (induction ds arbitrary: x)
  case Nil
  then show ?case by simp
next
  case (Cons d ds)
  from Cons.prems(1) have f: "entity_id (resource cx) d \<noteq> []"
    "entity_id (resource cx) d \<notin> processed_ids x"
    "entity_id (resource cx) d \<notin> existing_source_ids cx" "validate_record d (resource cx) = []"
    "fresh cx (insert (entity_id (resource cx) d) (processed_ids x)) ds"
    by (simp_all add: fresh_Cons)
  define x1 where "x1 = x\<lparr>processed_ids := insert (entity_id (resource cx) d) (processed_ids x),
      logs := logs x @ validation_log d (resource cx) [],
      buffer := buffer x @ [new_row cx d],
      stats := (stats x)\<lparr>stats_added_to_buffer := stats_added_to_buffer (stats x) + 1\<rparr>,
      records_processed := records_processed x + 1\<rparr>"
  from assms f(1-4) Cons.prems(2) have s: "process_item db cx x (JDict d) = Continue x1"
    by (simp add: process_item_def Let_def x1_def new_row_def)
  have x1: "processed_ids x1 = insert (entity_id (resource cx) d) (processed_ids x)"
    "buffer x1 = buffer x @ [new_row cx d]" "sess x1 = sess x"
    "records_processed x1 = records_processed x + 1"
    by (simp_all add: x1_def)
  from Cons.IH [of x1] f(5) Cons.prems(2) x1 obtain x' where
    "process_items db cx x1 (map JDict ds) = Continue x'"
    "buffer x' = buffer x1 @ map (new_row cx) ds" "sess x' = sess x1"
    "processed_ids x' = processed_ids x1 \<union> entity_id (resource cx) ` set ds"
    "records_processed x' = records_processed x1 + length ds"
    by auto
  with s x1 show ?case by simp
qed

lemma flushing_at_batch_size:
  assumes "\<not> test_mode cx"
    and "fresh cx (processed_ids x) [d]"
    and "int (length (buffer x) + 1) \<ge> batch_size (self cx)"
    and "db (length (calls (sess x))) = None" "db (Suc (length (calls (sess x)))) = None"
  shows "\<exists>x'. process_item db cx x (JDict d) = Continue x' \<and> buffer x' = [] \<and>
           sess x' = \<lparr>committed = committed (sess x) @ pending (sess x) @ buffer x @ [new_row cx d],
                      pending = [],
                      calls = calls (sess x) @ [BulkSave (buffer x @ [new_row cx d]), Commit]\<rparr> \<and>
           processed_ids x' = insert (entity_id (resource cx) d) (processed_ids x) \<and>
           records_processed x' = records_processed x + 1"
  using assms(1-3) flush_buffer_ok_iff [OF assms(4,5)]
  by (simp add: process_item_def Let_def fresh_Cons new_row_def)

lemma last_flush:
  assumes "\<not> test_mode cx" "buffer x \<noteq> []"
    and "db (length (calls (sess x))) = None" "db (Suc (length (calls (sess x)))) = None"
  shows "\<exists>x'. finish db cx x = (Inr (Count (records_processed x)), x') \<and>
           sess x' = \<lparr>committed = committed (sess x) @ pending (sess x) @ buffer x, pending = [],
                      calls = calls (sess x) @ [BulkSave (buffer x), Commit]\<rparr>"
  using assms(1,2) flush_buffer_ok_iff [OF assms(3,4)]
  by (simp add: finish_def Let_def)

text \<open>
  C6. The batch size is 1000; the generator yields pages whose items are lists, 1500
  items in all, every one a dict with an identifier of its own, not stored, and valid;
  the database accepts the inserts. Then \<open>extract_resource\<close> returns 1500 and calls the
  bulk insert exactly twice: with the first 1000 rows when the buffer reaches the batch
  size, and with the other 500 after the last page, each followed by a commit.
\<close>

theorem batch_flush_boundary:
  assumes t: "map_of RESOURCE_MODEL_MAP res = Some t"
    and le: "load_existing db False t s lg = (E, s', lg')"
    and pages: "get_paginated_resource up
        \<lparr>resource_path = the (map_of RESOURCE_ENDPOINT_MAP res),
         last_modified_start = sd, last_modified_end = ed, page_size = 100\<rparr> c
      = Some (ps, None, c')"
    and lists: "\<forall>pg \<in> set ps. \<exists>xs. page_items pg = JList xs"
    and items: "all_items ps = map JDict ds" "length ds = 1500"
    and fr: "fresh \<lparr>resource = res, test_mode = False, limit = lim, existing_source_ids = E,
                    model_class = t, self = ex\<rparr> {} ds"
    and bs: "batch_size ex = 1000"
    and ok: "\<forall>k > length (calls s). db k = None"
  shows "\<exists>x1 rs. extract_resource up db ex res sd ed False lim c s lg = Some (Inr (Count 1500), c', x1)
          \<and> rs = map (new_row \<lparr>resource = res, test_mode = False, limit = lim,
                                  existing_source_ids = E, model_class = t, self = ex\<rparr>) ds
          \<and> calls (sess x1) = calls s @
                [Execute (''SELECT source_id FROM '' @ t),
                 BulkSave (take 1000 rs), Commit, BulkSave (drop 1000 rs), Commit]
          \<and> length (take 1000 rs) = 1000 \<and> length (drop 1000 rs) = 500
          \<and> committed (sess x1) = committed s @ pending s @ rs"
proof -
  let ?a = "\<lparr>resource_path = the (map_of RESOURCE_ENDPOINT_MAP res),
         last_modified_start = sd, last_modified_end = ed, page_size = 100\<rparr>"
  let ?cx = "\<lparr>resource = res, test_mode = False, limit = lim, existing_source_ids = E,
        model_class = t, self = ex\<rparr>"
  let ?x0 = "new_xstate s' lg'"
  let ?id = "entity_id (resource ?cx)"
  define ds1 where "ds1 = take 999 ds"
  define d where "d = ds ! 999"
  define ds2 where "ds2 = drop 1000 ds"
  have split: "ds = ds1 @ d # ds2"
    unfolding ds1_def d_def ds2_def using id_take_nth_drop [of 999 ds] items(2) by simp
  have len: "length ds1 = 999" "length ds2 = 500"
    unfolding ds1_def ds2_def using items(2) by simp_all
  have nt: "\<not> test_mode ?cx" and b: "batch_size (self ?cx) = 1000"
    by (simp_all add: bs)
  note sc = load_existing_scan(1,2,3) [OF le]
  from fr have f1: "fresh ?cx {} ds1" and f2: "fresh ?cx (?id ` set ds1) [d]"
    and f3: "fresh ?cx (insert (?id d) (?id ` set ds1)) ds2"
    unfolding split by (simp_all add: fresh_append fresh_Cons) (simp_all add: fresh_def)
  have x0: "buffer ?x0 = []" "processed_ids ?x0 = {}" "sess ?x0 = s'" "records_processed ?x0 = 0"
    by (simp_all add: new_xstate_def)
  from buffering_below_batch_size [OF nt, of ?x0 ds1 db] f1 x0 len b obtain y1 where
    y1: "process_items db ?cx ?x0 (map JDict ds1) = Continue y1"
      "buffer y1 = map (new_row ?cx) ds1" "sess y1 = s'" "processed_ids y1 = ?id ` set ds1"
      "records_processed y1 = 999"
    by auto
  have db1: "db (length (calls (sess y1))) = None" "db (Suc (length (calls (sess y1)))) = None"
    using ok by (simp_all add: y1(3) sc(3))
  from flushing_at_batch_size [OF nt, of y1 d db] f2 y1 len b db1 obtain y2 where
    y2: "process_item db ?cx y1 (JDict d) = Continue y2" "buffer y2 = []"
      "sess y2 = \<lparr>committed = committed s' @ pending s' @ map (new_row ?cx) ds1 @ [new_row ?cx d],
                  pending = [],
                  calls = calls s' @ [BulkSave (map (new_row ?cx) ds1 @ [new_row ?cx d]), Commit]\<rparr>"
      "processed_ids y2 = insert (?id d) (?id ` set ds1)"
      "records_processed y2 = 1000"
    by auto
  from buffering_below_batch_size [OF nt, of y2 ds2 db] f3 y2 len b obtain y3 where
    y3: "process_items db ?cx y2 (map JDict ds2) = Continue y3"
      "buffer y3 = map (new_row ?cx) ds2" "sess y3 = sess y2" "records_processed y3 = 1500"
    by auto
  from y1(1) y2(1) y3(1) have "process_items db ?cx ?x0 (all_items ps) = Continue y3"
    unfolding items(1) split by (simp add: process_items_append)
  with process_pages_agree [where x = ?x0 and y = ?x0 and db = db, OF nt lists refl] obtain z where
    z: "process_pages db ?cx ?x0 ps = Continue z" "core z = core y3"
    by (cases "process_pages db ?cx ?x0 ps") simp_all
  from z(2) y3 have zc: "buffer z = map (new_row ?cx) ds2" "sess z = sess y2" "records_processed z = 1500"
    by (simp_all add: core_def)
  have nonempty: "buffer z \<noteq> []"
    using zc(1) len(2) by auto
  have db2: "db (length (calls (sess z))) = None" "db (Suc (length (calls (sess z)))) = None"
    using ok by (simp_all add: zc(2) y2(3) sc(3))
  from last_flush [OF nt nonempty db2] zc obtain x1 where
    x1: "finish db ?cx z = (Inr (Count 1500), x1)"
      "sess x1 = \<lparr>committed = committed (sess y2) @ pending (sess y2) @ map (new_row ?cx) ds2,
                  pending = [],
                  calls = calls (sess y2) @ [BulkSave (map (new_row ?cx) ds2), Commit]\<rparr>"
    by auto
  from pages have pg: "paginate up ?a new_pager c = Some (ps, None, c')"
    by (simp add: get_paginated_resource_def)
  from page_loop_on_pages [OF pg, of db ?cx ?x0] z(1) x1(1)
  have "page_loop up ?a db ?cx new_pager c ?x0 = Some (Inr (Count 1500), c', x1)"
    by auto
  then have run: "extract_resource up db ex res sd ed False lim c s lg = Some (Inr (Count 1500), c', x1)"
    by (simp add: extract_resource_registered [OF t le])
  have tk: "take 1000 (map (new_row ?cx) ds) = map (new_row ?cx) ds1 @ [new_row ?cx d]"
    and dr: "drop 1000 (map (new_row ?cx) ds) = map (new_row ?cx) ds2"
    unfolding split using len by simp_all
  have "calls (sess x1) = calls s @
      [Execute (''SELECT source_id FROM '' @ t),
       BulkSave (take 1000 (map (new_row ?cx) ds)), Commit,
       BulkSave (drop 1000 (map (new_row ?cx) ds)), Commit]"
    by (simp add: x1(2) y2(3) sc(3) tk dr)
  moreover have "committed (sess x1) = committed s @ pending s @ map (new_row ?cx) ds"
    by (simp add: x1(2) y2(3) sc(1,2)) (simp add: split)
  moreover have "length (take 1000 (map (new_row ?cx) ds)) = 1000"
    "length (drop 1000 (map (new_row ?cx) ds)) = 500"
    using items(2) by simp_all
  ultimately show ?thesis
    using run by blast
qed

subsection \<open>A fetch that is answered at once\<close>

lemma answered_fetch:
  assumes "\<not> needs_refresh c"
    and "http_get up (length (sent c))
           \<lparr>url = base_url c @ ''/'' @ res, authorization = ''Bearer '' @ py_str (access_token c),
            params = ps\<rparr> = (dt, Response 200 (Some body))"
  shows "get_resource up res ps c =
           (Inr body,
            c\<lparr>clock := clock c + dt,
              sent := sent c @ [\<lparr>url = base_url c @ ''/'' @ res,
                                 authorization = ''Bearer '' @ py_str (access_token c),
                                 params = ps\<rparr>]\<rparr>)"
proof -
  from assms have "client_get up (base_url c @ ''/'' @ res) ps c =
      (Inr (200, Some body),
       c\<lparr>clock := clock c + dt,
         sent := sent c @ [\<lparr>url = base_url c @ ''/'' @ res,
                            authorization = ''Bearer '' @ py_str (access_token c),
                            params = ps\<rparr>]\<rparr>)"
    by (simp add: client_get_def get_headers_def refresh_token_def)
  then have "get_resource_attempt up res ps c =
      (Inr body,
       c\<lparr>clock := clock c + dt,
         sent := sent c @ [\<lparr>url = base_url c @ ''/'' @ res,
                            authorization = ''Bearer '' @ py_str (access_token c),
                            params = ps\<rparr>]\<rparr>)"
    by (simp add: get_resource_attempt_def read_response_def is_success_def)
  then show ?thesis
    by (simp add: get_resource_three_attempts)
qed

subsection \<open>Decimal rendering is injective\<close>

lemma digit_value: "(of_char (digit_char n) :: nat) = 48 + n mod 10"
proof -
  have "(of_char (char_of (48 + n mod 10 :: nat)) :: nat) = (48 + n mod 10) mod 256"
    by (rule of_char_of)
  also have "\<dots> = 48 + n mod 10"
    by (rule mod_less) simp
  finally show ?thesis by simp
qed

lemma str_nat_small: "n < 10 \<Longrightarrow> str_nat n = [digit_char n]"
  by (subst str_nat.simps) (simp del: digit_char.simps)

lemma str_nat_large: "\<not> n < 10 \<Longrightarrow> str_nat n = str_nat (n div 10) @ [digit_char n]"
  by (subst str_nat.simps) (simp del: digit_char.simps)

lemma str_nat_value:
  "foldl (\<lambda>acc ch. 10 * acc + ((of_char ch :: nat) - 48)) 0 (str_nat n) = n"
proof (induction n rule: str_nat.induct)
  case (1 n)
  show ?case
  proof (cases "n < 10")
    case True
    then show ?thesis
      by (simp add: str_nat_small digit_value del: digit_char.simps)
  next
    case False
    with 1 have "foldl (\<lambda>acc ch. 10 * acc + ((of_char ch :: nat) - 48)) 0 (str_nat (n div 10)) = n div 10"
      by blast
    then show ?thesis
      by (simp add: str_nat_large [OF False] digit_value del: digit_char.simps)
  qed
qed

lemma str_nat_inj:
  assumes "str_nat n = str_nat m"
  shows "n = m"
proof -
  have "n = foldl (\<lambda>acc ch. 10 * acc + ((of_char ch :: nat) - 48)) 0 (str_nat n)"
    by (rule str_nat_value [symmetric])
  also have "\<dots> = foldl (\<lambda>acc ch. 10 * acc + ((of_char ch :: nat) - 48)) 0 (str_nat m)"
    by (simp only: assms)
  also have "\<dots> = m"
    by (rule str_nat_value)
  finally show ?thesis .
qed

theorem batch_flush_boundary_witness:
  "\<exists>k x1 b1 b2.
     extract_resource
       \<lparr>http_get = (\<lambda>k req. (0, if map_of (params req) ''pageNumber'' = Some (PInt 1)
          then Response 200 (Some (JDict [(''Data'',
                 JList (map (\<lambda>n. JDict [(''EntityID'', JInt (int n))]) [1 ..< 1501]))]))
          else Response 200 (Some (JList [])))),
        token_post = (\<lambda>k. (0, ConnectionFailed ''unreachable''))\<rparr>
       (\<lambda>k. None) \<lparr>batch_size = 1000, batch_id = ''B1''\<rparr> ''contacts'' None None False None
       \<lparr>base_url = ''https://api'', access_token = JStr ''T0'', token_expires_at = Some 3600,
        clock = 0, sent = [], token_requests = 0, slept = []\<rparr>
       \<lparr>committed = [], pending = [], calls = []\<rparr> []
     = Some (Inr (Count 1500), k, x1)
     \<and> calls (sess x1) = [Execute ''SELECT source_id FROM raw_contacts'',
                           BulkSave b1, Commit, BulkSave b2, Commit]
     \<and> length b1 = 1000 \<and> length b2 = 500"
proof -
  define ds where "ds = map (\<lambda>n. [(''EntityID'', JInt (int n))]) [1 ..< 1501]"
  define big where "big = map (\<lambda>n. JDict [(''EntityID'', JInt (int n))]) [1 ..< 1501]"
  have big: "big = map JDict ds" "big \<noteq> []" "length ds = 1500"
    by (simp_all add: big_def ds_def)
  let ?page = "JDict [(''Data'', JList big)]"
  let ?up = "\<lparr>http_get = (\<lambda>k req. (0::int, if map_of (params req) ''pageNumber'' = Some (PInt 1)
          then Response 200 (Some ?page) else Response 200 (Some (JList [])))),
        token_post = (\<lambda>k. (0::int, ConnectionFailed ''unreachable''))\<rparr>"
  let ?db = "\<lambda>k::nat. None :: db_fault option"
  let ?ex = "\<lparr>batch_size = 1000, batch_id = ''B1''\<rparr>"
  let ?c = "\<lparr>base_url = ''https://api'', access_token = JStr ''T0'', token_expires_at = Some 3600,
        clock = 0, sent = [], token_requests = 0, slept = []\<rparr>"
  let ?s = "\<lparr>committed = [], pending = [], calls = []\<rparr>"
  let ?a = "\<lparr>resource_path = the (map_of RESOURCE_ENDPOINT_MAP ''contacts''),
       last_modified_start = None, last_modified_end = None, page_size = 100\<rparr>"
  let ?q1 = "\<lparr>url = ''https://api/Contacts/LastModifiedCreated'', authorization = ''Bearer T0'',
       params = [(''pageNumber'', PInt 1), (''pageSize'', PInt 100)]\<rparr>"
  let ?q2 = "\<lparr>url = ''https://api/Contacts/LastModifiedCreated'', authorization = ''Bearer T0'',
       params = [(''pageNumber'', PInt 2), (''pageSize'', PInt 100)]\<rparr>"
  let ?c1 = "?c\<lparr>clock := clock ?c + 0, sent := sent ?c @ [?q1]\<rparr>"
  let ?c2 = "?c1\<lparr>clock := clock ?c1 + 0, sent := sent ?c1 @ [?q2]\<rparr>"
  let ?g1 = "\<lparr>page = 1, total_items = JNull, yielded = Some ?page\<rparr>"
  have path: "resource_path ?a = ''Contacts/LastModifiedCreated''"
    by (simp add: RESOURCE_ENDPOINT_MAP_def)
  have p1: "build_params ?a (Suc 0) now = [(''pageNumber'', PInt 1), (''pageSize'', PInt 100)]"
    and p2: "build_params ?a (Suc (Suc 0)) now = [(''pageNumber'', PInt 2), (''pageSize'', PInt 100)]"
    and p2': "build_params ?a 2 now = [(''pageNumber'', PInt 2), (''pageSize'', PInt 100)]" for now
    by (simp_all add: build_params_def given_def)
  have r1: "get_resource ?up ''Contacts/LastModifiedCreated''
      [(''pageNumber'', PInt 1), (''pageSize'', PInt 100)] ?c = (Inr ?page, ?c1)"
    by (rule answered_fetch [THEN trans]) (simp_all add: needs_refresh_def py_str_def)
  have r2: "get_resource ?up ''Contacts/LastModifiedCreated''
      [(''pageNumber'', PInt 2), (''pageSize'', PInt 100)] ?c1 = (Inr (JList []), ?c2)"
    by (rule answered_fetch [THEN trans]) (simp_all add: needs_refresh_def py_str_def)
  have h1: "has_data ?page = Inr True"
    using big(2) by (simp add: has_data_def has_items_def)
  have n1: "next_page ?up ?a new_pager ?c = (Inr (Some (?page, ?g1)), ?c1)"
    using r1 h1 p1 by (simp add: next_page_def new_pager_def fetch_page_def RESOURCE_ENDPOINT_MAP_def)
  have n2: "next_page ?up ?a ?g1 ?c1 = (Inr None, ?c2)"
    using r2 p2 p2' by (simp add: next_page_def fetch_page_def RESOURCE_ENDPOINT_MAP_def last_page_def get_truthy_def has_data_def)
  have "paginate ?up ?a ?g1 ?c1 = Some ([], None, ?c2)"
    using n2 by (subst paginate.simps) simp
  with n1 have "paginate ?up ?a new_pager ?c = Some ([?page], None, ?c2)"
    by (subst paginate.simps) simp
  then have pages: "get_paginated_resource ?up ?a ?c = Some ([?page], None, ?c2)"
    by (simp add: get_paginated_resource_def)
  have t: "map_of RESOURCE_MODEL_MAP ''contacts'' = Some ''raw_contacts''"
    by (simp add: RESOURCE_MODEL_MAP_def)
  obtain E s' lg' where le: "load_existing ?db False ''raw_contacts'' ?s [] = (E, s', lg')"
    by (cases "load_existing ?db False ''raw_contacts'' ?s []")
  from load_existing_scan(5) [OF le] have E: "E = {}"
    by simp
  let ?cx = "\<lparr>resource = ''contacts'', test_mode = False, limit = None, existing_source_ids = E,
       model_class = ''raw_contacts'', self = ?ex\<rparr>"
  have lists: "\<forall>pg \<in> set [?page]. \<exists>xs. page_items pg = JList xs"
    by (simp add: page_items_def)
  have items: "all_items [?page] = map JDict ds"
    by (simp add: all_items_def page_items_def big(1))
  have ids: "map (entity_id (resource ?cx)) ds = map str_nat [1 ..< 1501]"
    by (simp add: ds_def entity_id_def py_str_def str_int_def)
  have "distinct (map str_nat [1 ..< 1501])"
    by (simp add: distinct_map inj_on_def str_nat_inj del: upt_Suc)
  with ids have dist: "distinct (map (entity_id (resource ?cx)) ds)"
    by simp
  have each: "\<forall>d \<in> set ds. entity_id (resource ?cx) d \<noteq> [] \<and> entity_id (resource ?cx) d \<notin> {}
      \<and> entity_id (resource ?cx) d \<notin> existing_source_ids ?cx \<and> validate_record d (resource ?cx) = []"
    by (auto simp: ds_def E entity_id_def py_str_def str_int_def str_nat_nonempty validate_record_def
        id_field_map_def get_truthy_def simp del: upt_Suc)
  from dist each have fr: "fresh ?cx {} ds"
    unfolding fresh_def by blast
  have bs: "batch_size ?ex = 1000" by simp
  have ok: "\<forall>k > length (calls ?s). ?db k = None" by simp
  from batch_flush_boundary [OF t le pages lists items big(3) fr bs ok]
  obtain x1 rs where
    run: "extract_resource ?up ?db ?ex ''contacts'' None None False None ?c ?s [] = Some (Inr (Count 1500), ?c2, x1)"
    and cl: "calls (sess x1) = calls ?s @ [Execute (''SELECT source_id FROM '' @ ''raw_contacts''),
        BulkSave (take 1000 rs), Commit, BulkSave (drop 1000 rs), Commit]"
    and ln: "length (take 1000 rs) = 1000" "length (drop 1000 rs) = 500"
    by (elim exE conjE) (rule that; assumption)
  from cl have cl': "calls (sess x1) = [Execute ''SELECT source_id FROM raw_contacts'',
        BulkSave (take 1000 rs), Commit, BulkSave (drop 1000 rs), Commit]"
    by simp
  from run cl' ln show ?thesis
    unfolding big_def
    by (intro exI [of _ ?c2] exI [of _ x1] exI [of _ "take 1000 rs"] exI [of _ "drop 1000 rs"]) simp
qed

subsection \<open>A flush that fails\<close>

lemma flush_insert_fails:
  "db (length (calls s)) = Some (Fault m k) \<and> db (Suc (length (calls s))) = None \<longrightarrow>
   flush_buffer db buf s lg =
     (Inl (Exception (''Failed to flush buffer to database: '' @ m)),
      \<lparr>committed = committed s, pending = [], calls = calls s @ [BulkSave buf, Rollback]\<rparr>,
      lg @ [(INFO, ''Attempting to flush '' @ str_nat (length buf) @ '' records to database''),
            (ERROR, ''Database error while flushing buffer: '' @ m),
            (ERROR, ''Error type: DatabaseError'')]
         @ record_lines buf)"
  by (simp add: flush_buffer_def flush_failed_def bulk_save_objects_def rollback_def Let_def)

lemma flush_commit_fails:
  "db (length (calls s)) = None \<and> db (Suc (length (calls s))) = Some (Fault m k) \<and>
   db (Suc (Suc (length (calls s)))) = None \<longrightarrow>
   flush_buffer db buf s lg =
     (Inl (Exception (''Failed to flush buffer to database: '' @ m)),
      \<lparr>committed = committed s, pending = [], calls = calls s @ [BulkSave buf, Commit, Rollback]\<rparr>,
      lg @ [(INFO, ''Attempting to flush '' @ str_nat (length buf) @ '' records to database''),
            (ERROR, ''Database error while flushing buffer: '' @ m),
            (ERROR, ''Error type: DatabaseError'')]
         @ record_lines buf)"
  by (simp add: flush_buffer_def flush_failed_def bulk_save_objects_def commit_def rollback_def
      fault_error_def Let_def)

lemma flush_insert_and_rollback_fail:
  "db (length (calls s)) = Some (Fault m k) \<and> db (Suc (length (calls s))) = Some (Fault m' k') \<longrightarrow>
   flush_buffer db buf s lg =
     (Inl (DatabaseError m'),
      \<lparr>committed = committed s, pending = pending s @ take k buf,
       calls = calls s @ [BulkSave buf, Rollback]\<rparr>,
      lg @ [(INFO, ''Attempting to flush '' @ str_nat (length buf) @ '' records to database'')])"
  by (simp add: flush_buffer_def flush_failed_def bulk_save_objects_def rollback_def
      fault_error_def Let_def)

lemma flush_commit_and_rollback_fail:
  "db (length (calls s)) = None \<and> db (Suc (length (calls s))) = Some (Fault m k) \<and>
   db (Suc (Suc (length (calls s)))) = Some (Fault m' k') \<longrightarrow>
   flush_buffer db buf s lg =
     (Inl (DatabaseError m'),
      \<lparr>committed = committed s, pending = pending s @ buf,
       calls = calls s @ [BulkSave buf, Commit, Rollback]\<rparr>,
      lg @ [(INFO, ''Attempting to flush '' @ str_nat (length buf) @ '' records to database'')])"
  by (simp add: flush_buffer_def flush_failed_def bulk_save_objects_def commit_def rollback_def
      fault_error_def Let_def)

lemma flush_succeeds:
  "db (length (calls s)) = None \<and> db (Suc (length (calls s))) = None \<longrightarrow>
   flush_buffer db buf s lg =
     (Inr (),
      \<lparr>committed = committed s @ pending s @ buf, pending = [],
       calls = calls s @ [BulkSave buf, Commit]\<rparr>,
      lg @ [(INFO, ''Attempting to flush '' @ str_nat (length buf) @ '' records to database''),
            (INFO, ''Successfully flushed '' @ str_nat (length buf) @ '' records to database'')])"
  using flush_buffer_ok_iff [of db s buf lg] by simp

lemma flush_failure_commits_nothing:
  "flush_buffer db buf s lg = (Inl e, s', lg') \<longrightarrow>
   committed s' = committed s \<and>
   (calls s' = calls s @ [BulkSave buf, Rollback] \<or>
    calls s' = calls s @ [BulkSave buf, Commit, Rollback])"
  using flush_buffer_failed(1,2) [of db buf s lg e s' lg'] by blast

lemma record_lines_length: "length (record_lines buf) = length buf"
  by (simp add: record_lines_def del: upt_Suc)

lemma record_lines_nth:
  "\<forall>i < length buf.
     record_lines buf ! i =
       (ERROR, ''Record '' @ str_nat i @ '': source_id='' @ source_id (buf ! i)
               @ '', etl_batch_id='' @ etl_batch_id (buf ! i))"
  by (simp add: record_lines_def del: upt_Suc)

lemma process_pages_stop_at_raise:
  "process_page db cx x pg = Raise e x' \<longrightarrow> process_pages db cx x (pg # rest) = Raise e x'"
  by simp

lemma process_item_flush_fails:
  "\<not> test_mode cx \<and> accepted cx (processed_ids x) d \<and>
   batch_size (self cx) \<le> int (length (buffer x)) + 1 \<and>
   flush_buffer db (buffer x @ [new_row cx d]) (sess x) (logs x) = (Inl e, s', lg') \<longrightarrow>
   (\<exists>x'. process_item db cx x (JDict d) = Raise e x' \<and> sess x' = s' \<and> logs x' = lg')"
  by (auto simp: process_item_def Let_def accepted_def new_row_def validation_log_def)

lemma process_items_stop_at_raise:
  "process_item db cx x item = Raise e x' \<longrightarrow> process_items db cx x (item # rest) = Raise e x'"
  by simp

lemma process_page_passes_raise:
  "py_len (page_items pg) = Inr n \<and>
   process_items db cx
     (x\<lparr>stats := (stats x)\<lparr>stats_total_items := stats_total_items (stats x) + n\<rparr>,
        logs := logs x @ [(INFO, ''Processing '' @ str_nat n @ '' items from page ?/?'')]\<rparr>)
     (py_iter (page_items pg)) = Raise e x' \<longrightarrow>
   process_page db cx x pg = Raise e x'"
  by (simp add: process_page_def Let_def)

lemma page_loop_passes_raise:
  "next_page up a g c = (Inr (Some (pg, g')), c') \<and> process_page db cx x pg = Raise e x' \<longrightarrow>
   page_loop up a db cx g c x = Some (Inl e, c', x')"
  by (subst page_loop.simps) simp

lemma finish_flush_fails:
  "\<not> test_mode cx \<and> buffer x \<noteq> [] \<and>
   flush_buffer db (buffer x) (sess x) (logs x) = (Inl e, s', lg') \<longrightarrow>
   finish db cx x = (Inl e, x\<lparr>sess := s', logs := lg'\<rparr>)"
  by (simp add: finish_def)

lemma page_loop_passes_finish:
  "next_page up a g c = (Inr None, c') \<and> finish db cx x = (Inl e, x') \<longrightarrow>
   page_loop up a db cx g c x = Some (Inl e, c', x')"
  by (subst page_loop.simps) simp

lemma extract_resource_raise_in_pages:
  "map_of RESOURCE_MODEL_MAP res = Some t \<and> load_existing db False t s lg = (E, s', lg') \<and>
   get_paginated_resource up
     \<lparr>resource_path = the (map_of RESOURCE_ENDPOINT_MAP res),
      last_modified_start = sd, last_modified_end = ed, page_size = 100\<rparr> c = Some (ps, t0, c') \<and>
   process_pages db
     \<lparr>resource = res, test_mode = False, limit = lim, existing_source_ids = E,
      model_class = t, self = ex\<rparr> (new_xstate s' lg') ps = Raise e x' \<longrightarrow>
   (\<exists>k. extract_resource up db ex res sd ed False lim c s lg = Some (Inl e, k, x'))"
proof
  let ?a = "\<lparr>resource_path = the (map_of RESOURCE_ENDPOINT_MAP res),
      last_modified_start = sd, last_modified_end = ed, page_size = 100\<rparr>"
  let ?cx = "\<lparr>resource = res, test_mode = False, limit = lim, existing_source_ids = E,
      model_class = t, self = ex\<rparr>"
  assume h: "map_of RESOURCE_MODEL_MAP res = Some t \<and> load_existing db False t s lg = (E, s', lg') \<and>
     get_paginated_resource up ?a c = Some (ps, t0, c') \<and>
     process_pages db ?cx (new_xstate s' lg') ps = Raise e x'"
  then have pg: "paginate up ?a new_pager c = Some (ps, t0, c')"
    by (simp add: get_paginated_resource_def)
  from page_loop_on_pages [OF pg, of db ?cx "new_xstate s' lg'"] h
  obtain k where "page_loop up ?a db ?cx new_pager c (new_xstate s' lg') = Some (Inl e, k, x')"
    by auto
  with h show "\<exists>k. extract_resource up db ex res sd ed False lim c s lg = Some (Inl e, k, x')"
    by (auto simp: extract_resource_registered)
qed

lemma extract_resource_raise_in_finish:
  "map_of RESOURCE_MODEL_MAP res = Some t \<and> load_existing db False t s lg = (E, s', lg') \<and>
   get_paginated_resource up
     \<lparr>resource_path = the (map_of RESOURCE_ENDPOINT_MAP res),
      last_modified_start = sd, last_modified_end = ed, page_size = 100\<rparr> c = Some (ps, None, c') \<and>
   process_pages db
     \<lparr>resource = res, test_mode = False, limit = lim, existing_source_ids = E,
      model_class = t, self = ex\<rparr> (new_xstate s' lg') ps = Continue y \<and>
   finish db
     \<lparr>resource = res, test_mode = False, limit = lim, existing_source_ids = E,
      model_class = t, self = ex\<rparr> y = (Inl e, x') \<longrightarrow>
   extract_resource up db ex res sd ed False lim c s lg = Some (Inl e, c', x')"
proof
  let ?a = "\<lparr>resource_path = the (map_of RESOURCE_ENDPOINT_MAP res),
      last_modified_start = sd, last_modified_end = ed, page_size = 100\<rparr>"
  let ?cx = "\<lparr>resource = res, test_mode = False, limit = lim, existing_source_ids = E,
      model_class = t, self = ex\<rparr>"
  assume h: "map_of RESOURCE_MODEL_MAP res = Some t \<and> load_existing db False t s lg = (E, s', lg') \<and>
     get_paginated_resource up ?a c = Some (ps, None, c') \<and>
     process_pages db ?cx (new_xstate s' lg') ps = Continue y \<and>
     finish db ?cx y = (Inl e, x')"
  then have pg: "paginate up ?a new_pager c = Some (ps, None, c')"
    by (simp add: get_paginated_resource_def)
  from page_loop_on_pages [OF pg, of db ?cx "new_xstate s' lg'"] h
  have "page_loop up ?a db ?cx new_pager c (new_xstate s' lg') = Some (Inl e, c', x')"
    by auto
  with h show "extract_resource up db ex res sd ed False lim c s lg = Some (Inl e, c', x')"
    by (auto simp: extract_resource_registered)
qed

text \<open>
  C7, as the claim states it, fails: the exception raised after a failed flush carries
  the text of the database error behind a fixed prefix. Here that text names no record,
  and neither does the exception; the identifier is in the log.
\<close>

theorem flush_exception_has_no_identifiers:
  "flush_buffer (\<lambda>k. if k = 0 then Some (Fault ''connection lost'' 0) else None)
     [\<lparr>tablename = ''raw_contacts'', source_id = ''ID-42'', raw_data = JDict [(''EntityID'', JStr ''ID-42'')],
       etl_batch_id = ''B1''\<rparr>]
     \<lparr>committed = [], pending = [], calls = []\<rparr> []
   = (Inl (Exception ''Failed to flush buffer to database: connection lost''),
      \<lparr>committed = [], pending = [],
       calls = [BulkSave [\<lparr>tablename = ''raw_contacts'', source_id = ''ID-42'',
                           raw_data = JDict [(''EntityID'', JStr ''ID-42'')], etl_batch_id = ''B1''\<rparr>],
                Rollback]\<rparr>,
      [(INFO, ''Attempting to flush 1 records to database''),
       (ERROR, ''Database error while flushing buffer: connection lost''),
       (ERROR, ''Error type: DatabaseError''),
       (ERROR, ''Record 0: source_id=ID-42, etl_batch_id=B1'')])
   \<and> \<not> contains ''Failed to flush buffer to database: connection lost'' ''ID-42''"
  by code_simp

text \<open>
  C7, as the code has it. A flush whose insert and commit go through commits the whole
  buffer, with whatever the open transaction held. When the insert or the commit raises,
  the session is rolled back; if the rollback goes through, the transaction is empty, the
  log holds the error and one ERROR line per record of the buffer with its \<open>source_id\<close>
  and \<open>etl_batch_id\<close>, and the exception raised is \<open>Failed to flush buffer to database: \<close>
  followed by the text of the error caught. If the rollback raises as well, its exception
  is the one that leaves, and no record line is logged. In every failing case the rows
  committed are those committed before, and the session has seen one bulk insert. The
  exception ends the extraction: the item loop stops at the item whose flush failed, the
  page loop at its page, the flush after the last page passes its exception on, and
  \<open>extract_resource\<close> returns that exception.
\<close>

theorem flush_all_or_nothing:
  "(db (length (calls s)) = None \<and> db (Suc (length (calls s))) = None \<longrightarrow>
      flush_buffer db buf s lg =
        (Inr (),
         \<lparr>committed = committed s @ pending s @ buf, pending = [],
          calls = calls s @ [BulkSave buf, Commit]\<rparr>,
         lg @ [(INFO, ''Attempting to flush '' @ str_nat (length buf) @ '' records to database''),
               (INFO, ''Successfully flushed '' @ str_nat (length buf) @ '' records to database'')]))
   \<and> (db (length (calls s)) = Some (Fault m k) \<and> db (Suc (length (calls s))) = None \<longrightarrow>
        flush_buffer db buf s lg =
          (Inl (Exception (''Failed to flush buffer to database: '' @ m)),
           \<lparr>committed = committed s, pending = [], calls = calls s @ [BulkSave buf, Rollback]\<rparr>,
           lg @ [(INFO, ''Attempting to flush '' @ str_nat (length buf) @ '' records to database''),
                 (ERROR, ''Database error while flushing buffer: '' @ m),
                 (ERROR, ''Error type: DatabaseError'')]
              @ record_lines buf))
   \<and> (db (length (calls s)) = None \<and> db (Suc (length (calls s))) = Some (Fault m k) \<and>
        db (Suc (Suc (length (calls s)))) = None \<longrightarrow>
        flush_buffer db buf s lg =
          (Inl (Exception (''Failed to flush buffer to database: '' @ m)),
           \<lparr>committed = committed s, pending = [],
            calls = calls s @ [BulkSave buf, Commit, Rollback]\<rparr>,
           lg @ [(INFO, ''Attempting to flush '' @ str_nat (length buf) @ '' records to database''),
                 (ERROR, ''Database error while flushing buffer: '' @ m),
                 (ERROR, ''Error type: DatabaseError'')]
              @ record_lines buf))
   \<and> (db (length (calls s)) = Some (Fault m k) \<and>
        db (Suc (length (calls s))) = Some (Fault m' k') \<longrightarrow>
        flush_buffer db buf s lg =
          (Inl (DatabaseError m'),
           \<lparr>committed = committed s, pending = pending s @ take k buf,
            calls = calls s @ [BulkSave buf, Rollback]\<rparr>,
           lg @ [(INFO, ''Attempting to flush '' @ str_nat (length buf) @ '' records to database'')]))
   \<and> (db (length (calls s)) = None \<and> db (Suc (length (calls s))) = Some (Fault m k) \<and>
        db (Suc (Suc (length (calls s)))) = Some (Fault m' k') \<longrightarrow>
        flush_buffer db buf s lg =
          (Inl (DatabaseError m'),
           \<lparr>committed = committed s, pending = pending s @ buf,
            calls = calls s @ [BulkSave buf, Commit, Rollback]\<rparr>,
           lg @ [(INFO, ''Attempting to flush '' @ str_nat (length buf) @ '' records to database'')]))
   \<and> (flush_buffer db buf s lg = (Inl e, s', lg') \<longrightarrow>
        committed s' = committed s \<and>
        (calls s' = calls s @ [BulkSave buf, Rollback] \<or>
         calls s' = calls s @ [BulkSave buf, Commit, Rollback]))
   \<and> length (record_lines buf) = length buf
   \<and> (\<forall>i < length buf.
         record_lines buf ! i =
           (ERROR, ''Record '' @ str_nat i @ '': source_id='' @ source_id (buf ! i)
                   @ '', etl_batch_id='' @ etl_batch_id (buf ! i)))
   \<and> (\<not> test_mode cx \<and> accepted cx (processed_ids x) d \<and>
        batch_size (self cx) \<le> int (length (buffer x)) + 1 \<and>
        flush_buffer db (buffer x @ [new_row cx d]) (sess x) (logs x) = (Inl e, s', lg') \<longrightarrow>
        (\<exists>x'. process_item db cx x (JDict d) = Raise e x' \<and> sess x' = s' \<and> logs x' = lg'))
   \<and> (process_item db cx x item = Raise e x' \<longrightarrow>
        process_items db cx x (item # rest) = Raise e x')
   \<and> (py_len (page_items pg) = Inr n \<and>
        process_items db cx
          (x\<lparr>stats := (stats x)\<lparr>stats_total_items := stats_total_items (stats x) + n\<rparr>,
             logs := logs x @ [(INFO, ''Processing '' @ str_nat n @ '' items from page ?/?'')]\<rparr>)
          (py_iter (page_items pg)) = Raise e x' \<longrightarrow>
        process_page db cx x pg = Raise e x')
   \<and> (process_page db cx x pg = Raise e x' \<longrightarrow>
        process_pages db cx x (pg # pgs) = Raise e x')
   \<and> (next_page up a g c = (Inr (Some (pg, g')), c') \<and> process_page db cx x pg = Raise e x' \<longrightarrow>
        page_loop up a db cx g c x = Some (Inl e, c', x'))
   \<and> (\<not> test_mode cx \<and> buffer x \<noteq> [] \<and>
        flush_buffer db (buffer x) (sess x) (logs x) = (Inl e, s', lg') \<longrightarrow>
        finish db cx x = (Inl e, x\<lparr>sess := s', logs := lg'\<rparr>))
   \<and> (next_page up a g c = (Inr None, c') \<and> finish db cx x = (Inl e, x') \<longrightarrow>
        page_loop up a db cx g c x = Some (Inl e, c', x'))
   \<and> (map_of RESOURCE_MODEL_MAP res = Some t \<and> load_existing db False t s lg = (E, s1, lg1) \<and>
        get_paginated_resource up
          \<lparr>resource_path = the (map_of RESOURCE_ENDPOINT_MAP res),
           last_modified_start = sd, last_modified_end = ed, page_size = 100\<rparr> c
          = Some (ps, t0, c') \<and>
        process_pages db
          \<lparr>resource = res, test_mode = False, limit = lim, existing_source_ids = E,
           model_class = t, self = ex\<rparr> (new_xstate s1 lg1) ps = Raise e x' \<longrightarrow>
        (\<exists>k. extract_resource up db ex res sd ed False lim c s lg = Some (Inl e, k, x')))
   \<and> (map_of RESOURCE_MODEL_MAP res = Some t \<and> load_existing db False t s lg = (E, s1, lg1) \<and>
        get_paginated_resource up
          \<lparr>resource_path = the (map_of RESOURCE_ENDPOINT_MAP res),
           last_modified_start = sd, last_modified_end = ed, page_size = 100\<rparr> c
          = Some (ps, None, c') \<and>
        process_pages db
          \<lparr>resource = res, test_mode = False, limit = lim, existing_source_ids = E,
           model_class = t, self = ex\<rparr> (new_xstate s1 lg1) ps = Continue y \<and>
        finish db
          \<lparr>resource = res, test_mode = False, limit = lim, existing_source_ids = E,
           model_class = t, self = ex\<rparr> y = (Inl e, x') \<longrightarrow>
        extract_resource up db ex res sd ed False lim c s lg = Some (Inl e, c', x'))"
  by (intro conjI)
     (rule flush_succeeds flush_insert_fails flush_commit_fails flush_insert_and_rollback_fail
        flush_commit_and_rollback_fail flush_failure_commits_nothing record_lines_length
        record_lines_nth process_item_flush_fails process_items_stop_at_raise
        process_page_passes_raise process_pages_stop_at_raise page_loop_passes_raise
        finish_flush_fails page_loop_passes_finish extract_resource_raise_in_pages
        extract_resource_raise_in_finish)+


theorem flush_all_or_nothing_witness:
  "\<exists>k x'.
     extract_resource
       \<lparr>http_get = (\<lambda>k req. (0, if map_of (params req) ''pageNumber'' = Some (PInt 1)
          then Response 200 (Some (JList [JDict [(''EntityID'', JStr ''A'')],
                                          JDict [(''EntityID'', JStr ''B'')]]))
          else Response 200 (Some (JList [])))),
        token_post = (\<lambda>k. (0, ConnectionFailed ''unreachable''))\<rparr>
       (\<lambda>k. if k = 2 then Some (Fault ''deadlock detected'' 0) else None)
       \<lparr>batch_size = 1000, batch_id = ''B1''\<rparr> ''contacts'' None None False None
       \<lparr>base_url = ''https://api'', access_token = JStr ''T0'', token_expires_at = Some 3600,
        clock = 0, sent = [], token_requests = 0, slept = []\<rparr>
       \<lparr>committed = [], pending = [], calls = []\<rparr> []
     = Some (Inl (Exception ''Failed to flush buffer to database: deadlock detected''), k, x')
     \<and> committed (sess x') = [] \<and> pending (sess x') = []
     \<and> calls (sess x') =
         [Execute ''SELECT source_id FROM raw_contacts'',
          BulkSave [\<lparr>tablename = ''raw_contacts'', source_id = ''A'',
                     raw_data = JDict [(''EntityID'', JStr ''A'')], etl_batch_id = ''B1''\<rparr>,
                    \<lparr>tablename = ''raw_contacts'', source_id = ''B'',
                     raw_data = JDict [(''EntityID'', JStr ''B'')], etl_batch_id = ''B1''\<rparr>],
          Commit, Rollback]
     \<and> (ERROR, ''Record 1: source_id=B, etl_batch_id=B1'') \<in> set (logs x')"
proof -
  let ?up = "\<lparr>http_get = (\<lambda>k req. (0::int, if map_of (params req) ''pageNumber'' = Some (PInt 1)
          then Response 200 (Some (JList [JDict [(''EntityID'', JStr ''A'')],
                                          JDict [(''EntityID'', JStr ''B'')]]))
          else Response 200 (Some (JList [])))),
        token_post = (\<lambda>k. (0::int, ConnectionFailed ''unreachable''))\<rparr>"
  let ?db = "\<lambda>k::nat. if k = 2 then Some (Fault ''deadlock detected'' 0) else None"
  let ?ex = "\<lparr>batch_size = 1000, batch_id = ''B1''\<rparr>"
  let ?c = "\<lparr>base_url = ''https://api'', access_token = JStr ''T0'', token_expires_at = Some 3600,
        clock = 0, sent = [], token_requests = 0, slept = []\<rparr>"
  let ?c' = "\<lparr>base_url = ''https://api'', access_token = JStr ''T0'', token_expires_at = Some 3600,
        clock = 0,
        sent = [\<lparr>url = ''https://api/Contacts/LastModifiedCreated'', authorization = ''Bearer T0'',
                 params = [(''pageNumber'', PInt 1), (''pageSize'', PInt 100)]\<rparr>,
                \<lparr>url = ''https://api/Contacts/LastModifiedCreated'', authorization = ''Bearer T0'',
                 params = [(''pageNumber'', PInt 2), (''pageSize'', PInt 100)]\<rparr>],
        token_requests = 0, slept = []\<rparr>"
  let ?s = "\<lparr>committed = [], pending = [], calls = []\<rparr>"
  let ?s1 = "\<lparr>committed = [], pending = [], calls = [Execute ''SELECT source_id FROM raw_contacts'']\<rparr>"
  let ?lg1 = "[(INFO, ''Found 0 existing records in raw_contacts'')]"
  let ?ra = "\<lparr>tablename = ''raw_contacts'', source_id = ''A'',
       raw_data = JDict [(''EntityID'', JStr ''A'')], etl_batch_id = ''B1''\<rparr>"
  let ?rb = "\<lparr>tablename = ''raw_contacts'', source_id = ''B'',
       raw_data = JDict [(''EntityID'', JStr ''B'')], etl_batch_id = ''B1''\<rparr>"
  let ?ps = "[JList [JDict [(''EntityID'', JStr ''A'')], JDict [(''EntityID'', JStr ''B'')]]]"
  let ?a = "\<lparr>resource_path = the (map_of RESOURCE_ENDPOINT_MAP ''contacts''),
       last_modified_start = None, last_modified_end = None, page_size = 100\<rparr>"
  let ?cx = "\<lparr>resource = ''contacts'', test_mode = False, limit = None, existing_source_ids = {},
       model_class = ''raw_contacts'', self = ?ex\<rparr>"
  let ?lgy = "[(INFO, ''Found 0 existing records in raw_contacts''),
       (INFO, ''Processing 2 items from page ?/?'')]"
  let ?y = "\<lparr>records_processed = 2, buffer = [?ra, ?rb], validation_errors = 0,
       processed_ids = {''A'', ''B''}, test_records = [],
       stats = \<lparr>stats_total_items = 2, stats_skipped_validation = 0,
                stats_already_in_database = 0, stats_added_to_buffer = 2\<rparr>,
       sess = ?s1, logs = ?lgy\<rparr>"
  let ?e = "Exception ''Failed to flush buffer to database: deadlock detected''"
  let ?s' = "\<lparr>committed = committed ?s1, pending = [],
       calls = calls ?s1 @ [BulkSave [?ra, ?rb], Commit, Rollback]\<rparr>"
  let ?lg' = "?lgy @ [(INFO, ''Attempting to flush '' @ str_nat (length [?ra, ?rb]) @ '' records to database''),
       (ERROR, ''Database error while flushing buffer: '' @ ''deadlock detected''),
       (ERROR, ''Error type: DatabaseError'')] @ record_lines [?ra, ?rb]"
  have t: "map_of RESOURCE_MODEL_MAP ''contacts'' = Some ''raw_contacts''"
    by (simp add: RESOURCE_MODEL_MAP_def)
  have le: "load_existing ?db False ''raw_contacts'' ?s [] = ({}, ?s1, ?lg1)"
    by code_simp
  have pages: "get_paginated_resource ?up ?a ?c = Some (?ps, None, ?c')"
    by code_simp
  have pp: "process_pages ?db ?cx (new_xstate ?s1 ?lg1) ?ps = Continue ?y"
    by code_simp
  have d: "?db (length (calls ?s1)) = None"
    "?db (Suc (length (calls ?s1))) = Some (Fault ''deadlock detected'' 0)"
    "?db (Suc (Suc (length (calls ?s1)))) = None"
    by simp_all
  note flush = flush_all_or_nothing [where db = ?db and s = ?s1 and buf = "[?ra, ?rb]"
      and lg = ?lgy and m = "''deadlock detected''" and k = 0,
      THEN conjunct2, THEN conjunct2, THEN conjunct1]
  from flush have f: "flush_buffer ?db [?ra, ?rb] ?s1 ?lgy = (Inl ?e, ?s', ?lg')"
    by simp
  note fin0 = flush_all_or_nothing [where db = ?db and cx = ?cx and x = ?y
      and e = ?e and s' = ?s' and lg' = ?lg', THEN conjunct2, THEN conjunct2, THEN conjunct2, THEN conjunct2, THEN conjunct2, THEN conjunct2, THEN conjunct2, THEN conjunct2, THEN conjunct2, THEN conjunct2, THEN conjunct2, THEN conjunct2, THEN conjunct2, THEN conjunct1]
  from fin0 f have fin: "finish ?db ?cx ?y = (Inl ?e, ?y\<lparr>sess := ?s', logs := ?lg'\<rparr>)"
    by simp
  note run = flush_all_or_nothing [where db = ?db and s = ?s and lg = "[]" and res = "''contacts''"
      and t = "''raw_contacts''" and E = "{}" and ?s1.0 = ?s1 and ?lg1.0 = ?lg1 and up = ?up
      and sd = None and ed = None and c = ?c and ps = ?ps and c' = ?c' and lim = None and ex = ?ex
      and y = ?y and e = ?e and x' = "?y\<lparr>sess := ?s', logs := ?lg'\<rparr>", THEN conjunct2, THEN conjunct2, THEN conjunct2, THEN conjunct2, THEN conjunct2, THEN conjunct2, THEN conjunct2, THEN conjunct2, THEN conjunct2, THEN conjunct2, THEN conjunct2, THEN conjunct2, THEN conjunct2, THEN conjunct2, THEN conjunct2, THEN conjunct2]
  have r: "extract_resource ?up ?db ?ex ''contacts'' None None False None ?c ?s []
      = Some (Inl ?e, ?c', ?y\<lparr>sess := ?s', logs := ?lg'\<rparr>)"
    by (rule run [THEN mp]) (intro conjI t le pages pp fin)
  have lines: "record_lines [?ra, ?rb] =
      [(ERROR, ''Record 0: source_id=A, etl_batch_id=B1''),
       (ERROR, ''Record 1: source_id=B, etl_batch_id=B1'')]"
    by code_simp
  show ?thesis
    by (intro exI [of _ ?c'] exI [of _ "?y\<lparr>sess := ?s', logs := ?lg'\<rparr>"]) (simp add: r lines)
qed

subsection \<open>Pagination\<close>


















subsection \<open>An upstream that never serves an empty page\<close>







end
